theory Spec2Isabelle
  imports Complex_Main "HOL-Library.AList"
begin

section \<open>Strings and the runtime's string operations\<close>

text \<open>
  Strings are character lists. The characters the runtime treats as white space
  (in \<open>trim\<close>, in the regular expression class \<open>\s\<close> and in \<open>parseInt\<close>) are, among the
  8-bit characters, tab, line feed, vertical tab, form feed, carriage return, space
  and the no-break space.
\<close>

abbreviation NL :: char where
  "NL \<equiv> CHR 0x0A"

definition isSpace :: "char \<Rightarrow> bool" where
  "isSpace c = (c \<in> set [CHR 0x09, CHR 0x0A, CHR 0x0B, CHR 0x0C, CHR 0x0D, CHR 0x20, CHR 0xA0])"

text \<open>\<open>s.trim()\<close>\<close>

definition trim :: "string \<Rightarrow> string" where
  "trim s = rev (dropWhile isSpace (rev (dropWhile isSpace s)))"

text \<open>\<open>s.startsWith(p)\<close>\<close>

definition startsWith :: "string \<Rightarrow> string \<Rightarrow> bool" where
  "startsWith s p = (take (length p) s = p)"

text \<open>\<open>s.split(c)\<close> for a one-character separator: never the empty list.\<close>

fun splitOn :: "char \<Rightarrow> string \<Rightarrow> string list" where
  "splitOn c [] = [[]]"
| "splitOn c (x # xs) =
     (if x = c then [] # splitOn c xs
      else (case splitOn c xs of [] \<Rightarrow> [[x]] | y # ys \<Rightarrow> (x # y) # ys))"

text \<open>
  \<open>s.split(/\s+/)\<close>: the pieces between maximal runs of white space; leading white space
  gives a leading empty piece, trailing white space a trailing one.
\<close>

function splitWs :: "string \<Rightarrow> string list" where
  "splitWs [] = [[]]"
| "splitWs (x # xs) =
     (if isSpace x then [] # splitWs (dropWhile isSpace xs)
      else (case splitWs xs of [] \<Rightarrow> [[x]] | y # ys \<Rightarrow> (x # y) # ys))"
  by pat_completeness auto
termination
  by (relation "measure length") (auto simp: length_dropWhile_le less_Suc_eq_le)

text \<open>\<open>xs.join(sep)\<close>\<close>

fun join :: "string \<Rightarrow> string list \<Rightarrow> string" where
  "join sep [] = []"
| "join sep [x] = x"
| "join sep (x # y # ys) = x @ sep @ join sep (y # ys)"

text \<open>\<open>xs.indexOf(x)\<close>, with \<open>None\<close> for the result \<open>-1\<close>.\<close>

fun indexOf :: "'a list \<Rightarrow> 'a \<Rightarrow> nat option" where
  "indexOf [] x = None"
| "indexOf (y # ys) x = (if y = x then Some 0 else map_option Suc (indexOf ys x))"

text \<open>
  \<open>xs[i]\<close> for an index that may be \<open>-1\<close> (\<open>None\<close>) or out of range: the result is
  \<open>undefined\<close> (\<open>None\<close>) there.
\<close>

definition elemAt :: "'a list \<Rightarrow> nat option \<Rightarrow> 'a option" where
  "elemAt xs i = (case i of None \<Rightarrow> None | Some n \<Rightarrow> if n < length xs then Some (xs ! n) else None)"

text \<open>A template literal renders \<open>undefined\<close> as the text \<open>undefined\<close>.\<close>

definition render :: "string option \<Rightarrow> string" where
  "render v = (case v of None \<Rightarrow> ''undefined'' | Some s \<Rightarrow> s)"

text \<open>Decimal rendering of a natural number, as a template literal renders an index or a count.\<close>

fun showNat :: "nat \<Rightarrow> string" where
  "showNat n =
     (if n < 10 then [''0123456789'' ! n]
      else showNat (n div 10) @ [''0123456789'' ! (n mod 10)])"

declare showNat.simps [simp del]

section \<open>Values, numbers and errors of the runtime\<close>

datatype jserror = TypeError | SyntaxError | Error string

text \<open>
  A number is not-a-number, an infinity, or finite; a finite number carries its
  mathematical value (every double is a rational).
\<close>

datatype jsnum = NaN | PosInfinity | NegInfinity | Fin rat

datatype jsval =
    Undefined
  | Null
  | Bool bool
  | Num jsnum
  | Str string
  | Arr "jsval list"
  | Obj "(string \<times> jsval) list"

text \<open>
  The conversions of the language whose full definition lies outside the repository are
  parameters of the model: \<open>Number(v)\<close>, the rendering of a number in a template
  literal, \<open>s.replace(new RegExp(pattern, "g"), "")\<close> for a pattern that
  contains regular-expression syntax characters (which may raise a SyntaxError), and
  the number that stands for an integer of magnitude beyond \<open>2^53\<close> (the nearest
  double, or an infinity).
\<close>

record runtime =
  toNumber :: "jsval \<Rightarrow> jsnum"
  numToString :: "jsnum \<Rightarrow> string"
  regexReplace :: "string \<Rightarrow> string \<Rightarrow> jserror + string"
  roundLarge :: "int \<Rightarrow> jsnum"

section \<open>k8s: the pod-listing parser\<close>

definition ENV_PREFIXES :: "string list" where
  "ENV_PREFIXES = [''dev'', ''qa'', ''stg'', ''prod'']"

record ServiceDetails =
  id' :: string
  namespace :: "string option"
  serviceName :: string

text \<open>
  \<open>Map<string, Record<string, ServiceDetails>>\<close>: both levels keep insertion order, and
  assigning to a key that is present keeps its position. (An object lists integer-like
  keys first; the keys here are environment tags, none of which is integer-like.)
\<close>

type_synonym EnvMap = "(string \<times> ServiceDetails) list"
type_synonym ServicesMap = "(string \<times> EnvMap) list"

text \<open>\<open>ENV_PREFIXES.find((env) => nameColumn.startsWith(`${env}-`)) ?? "default"\<close>\<close>

definition envPrefixOf :: "string \<Rightarrow> string" where
  "envPrefixOf nameColumn =
     (case find (\<lambda>env. startsWith nameColumn (env @ ''-'')) ENV_PREFIXES of
        None \<Rightarrow> ''default'' | Some env \<Rightarrow> env)"

text \<open>\<open>serviceName.replace(/^(dev|qa|stg|prod)-/, "")\<close>\<close>

definition stripEnvPrefix :: "string \<Rightarrow> string" where
  "stripEnvPrefix s =
     (case find (\<lambda>env. startsWith s (env @ ''-'')) ENV_PREFIXES of
        None \<Rightarrow> s | Some env \<Rightarrow> drop (length env + 1) s)"

text \<open>
  \<open>s.replace(new RegExp(`^${namespaceColumn}-`, "g"), "")\<close>. A namespace without
  regular-expression syntax characters is matched literally; otherwise the pattern is
  handed to the runtime.
\<close>

definition regexSyntaxChars :: "char list" where
  "regexSyntaxChars = CHR 0x5C # ''^$.*+?()[]{}|''"

definition stripNamespacePrefix :: "runtime \<Rightarrow> string \<Rightarrow> string \<Rightarrow> jserror + string" where
  "stripNamespacePrefix rt namespaceColumn s =
     (if \<exists>c \<in> set namespaceColumn. c \<in> set regexSyntaxChars
      then regexReplace rt (''^'' @ namespaceColumn @ ''-'') s
      else Inr (if startsWith s (namespaceColumn @ ''-'')
                then drop (length namespaceColumn + 1) s else s))"

text \<open>
  The body of the loop over the rows: \<open>Inr None\<close> when the row is skipped, the entry to
  store otherwise, and \<open>Inl\<close> when the body raises (\<open>nameColumn.startsWith\<close> on
  \<open>undefined\<close> is a TypeError).
\<close>

definition parseRow ::
  "runtime \<Rightarrow> string option \<Rightarrow> nat option \<Rightarrow> nat option \<Rightarrow> nat option \<Rightarrow> string
     \<Rightarrow> jserror + (string \<times> string \<times> ServiceDetails) option" where
  "parseRow rt namespace' namespaceIndex nameIndex statusIndex line =
     (let columns = splitWs line;
          statusColumn = (case statusIndex of None \<Rightarrow> None | Some i \<Rightarrow> elemAt columns (Some i))
      in if statusColumn \<noteq> None \<and> statusColumn \<noteq> Some ''Running'' then Inr None
         else
           let namespaceColumn =
                 (case namespace' of Some n \<Rightarrow> Some n | None \<Rightarrow> elemAt columns namespaceIndex)
           in case elemAt columns nameIndex of
                None \<Rightarrow> Inl TypeError
              | Some nameColumn \<Rightarrow>
                  let envPrefix = envPrefixOf nameColumn;
                      parts = splitOn CHR ''-'' nameColumn
                  in if length parts > 2 then
                       let serviceName' = join ''-'' (take (length parts - 2) parts);
                           serviceId = join ''-'' (drop (length parts - 2) parts);
                           shortServiceName = stripEnvPrefix serviceName';
                           stripped =
                             (case namespaceColumn of
                                None \<Rightarrow> Inr shortServiceName
                              | Some n \<Rightarrow>
                                  if n \<noteq> [] then stripNamespacePrefix rt n shortServiceName
                                  else Inr shortServiceName)
                       in case stripped of
                            Inl e \<Rightarrow> Inl e
                          | Inr shortServiceName' \<Rightarrow>
                              Inr (Some (shortServiceName', envPrefix,
                                \<lparr>id' = serviceId, namespace = namespaceColumn,
                                 serviceName = serviceName'\<rparr>))
                     else Inr None)"

text \<open>
  \<open>if (!servicesMap.has(short)) servicesMap.set(short, {}); servicesMap.get(short)[env] = d\<close>
\<close>

definition upsert :: "ServicesMap \<Rightarrow> string \<Rightarrow> string \<Rightarrow> ServiceDetails \<Rightarrow> ServicesMap" where
  "upsert m shortServiceName envPrefix d =
     (let m' = (if map_of m shortServiceName = None
                then AList.update shortServiceName [] m else m);
          envMap = (case map_of m' shortServiceName of None \<Rightarrow> [] | Some em \<Rightarrow> em)
      in AList.update shortServiceName (AList.update envPrefix d envMap) m')"

fun parseRows ::
  "runtime \<Rightarrow> string option \<Rightarrow> nat option \<Rightarrow> nat option \<Rightarrow> nat option \<Rightarrow> string list
     \<Rightarrow> ServicesMap \<Rightarrow> jserror + ServicesMap" where
  "parseRows rt ns nsI nmI stI [] m = Inr m"
| "parseRows rt ns nsI nmI stI (line # rest) m =
     (case parseRow rt ns nsI nmI stI line of
        Inl e \<Rightarrow> Inl e
      | Inr None \<Rightarrow> parseRows rt ns nsI nmI stI rest m
      | Inr (Some (short, env, d)) \<Rightarrow> parseRows rt ns nsI nmI stI rest (upsert m short env d))"

definition parseServicesMap :: "runtime \<Rightarrow> string \<Rightarrow> string option \<Rightarrow> jserror + ServicesMap" where
  "parseServicesMap rt podsData namespace' =
     (case splitOn NL (trim podsData) of
        [] \<Rightarrow> Inr []
      | header # rows \<Rightarrow>
          let headers = splitWs header;
              namespaceIndex = indexOf headers ''NAMESPACE'';
              nameIndex = indexOf headers ''NAME'';
              statusIndex = indexOf headers ''STATUS''
          in parseRows rt namespace' namespaceIndex nameIndex statusIndex rows [])"

section \<open>k8s: cluster queries\<close>

text \<open>
  What \<open>child_process.exec\<close> hands to its callback. The cluster is a parameter of the
  model: a function from the command line to the outcome of running it.
\<close>

record ExecOutcome =
  error :: "string option"
  stdout :: string
  stderr :: string

text \<open>\<open>execPromise\<close>: \<open>Inl\<close> when the promise is rejected.\<close>

definition execPromise :: "ExecOutcome \<Rightarrow> jserror + string" where
  "execPromise out =
     (case error out of
        Some msg \<Rightarrow> Inl (Error msg)
      | None \<Rightarrow> if stderr out \<noteq> [] \<and> trim (stderr out) \<noteq> [] then Inl (Error (stderr out))
                else Inr (stdout out))"

text \<open>A string that may be \<open>undefined\<close> is truthy when it is a non-empty string.\<close>

definition truthy :: "string option \<Rightarrow> bool" where
  "truthy v = (case v of None \<Rightarrow> False | Some s \<Rightarrow> s \<noteq> [])"

definition getPods :: "(string \<Rightarrow> ExecOutcome) \<Rightarrow> string option \<Rightarrow> jserror + string" where
  "getPods exec namespace' =
     (let cmd = (if truthy namespace' then ''kubectl get pods --namespace '' @ render namespace'
                 else ''kubectl get pods --all-namespaces'')
      in execPromise (exec cmd))"

definition servicePortCommand :: "string option \<Rightarrow> string option \<Rightarrow> string" where
  "servicePortCommand serviceNamespace serviceName' =
     ''kubectl get service --namespace '' @ render serviceNamespace @ '' ''
       @ render serviceName' @ '' -o jsonpath={.spec.ports[*].port}''"

definition getServicePort ::
  "(string \<Rightarrow> ExecOutcome) \<Rightarrow> string option \<Rightarrow> string option \<Rightarrow> string" where
  "getServicePort exec serviceNamespace serviceName' =
     (let cmd = servicePortCommand serviceNamespace serviceName'
      in case execPromise (exec cmd) of
           Inl e \<Rightarrow> ''3000''
         | Inr port \<Rightarrow> if trim port \<noteq> [] then trim port else ''3000'')"

text \<open>
  \<open>parseInt(s, 10)\<close>: leading white space is skipped, a sign is read, then the longest
  run of decimal digits; without a digit the result is \<open>NaN\<close>. An integer of magnitude
  up to \<open>2^53\<close> is a double; a larger one is rounded by the runtime.
\<close>

definition isDigit :: "char \<Rightarrow> bool" where
  "isDigit c = (48 \<le> (of_char c :: nat) \<and> (of_char c :: nat) \<le> 57)"

definition digitsValue :: "string \<Rightarrow> nat" where
  "digitsValue ds = foldl (\<lambda>a c. 10 * a + (of_char c - 48)) 0 ds"

definition parseInt10 :: "runtime \<Rightarrow> string \<Rightarrow> jsnum" where
  "parseInt10 rt s =
     (let t = dropWhile isSpace s;
          negative = (case t of [] \<Rightarrow> False | c # r \<Rightarrow> c = CHR ''-'');
          u = (case t of [] \<Rightarrow> [] | c # r \<Rightarrow> if c = CHR ''-'' \<or> c = CHR ''+'' then r else t);
          ds = takeWhile isDigit u;
          v = (if negative then - int (digitsValue ds) else int (digitsValue ds))
      in if ds = [] then NaN
         else if \<bar>v\<bar> \<le> 9007199254740992 then Fin (of_int v)
         else roundLarge rt v)"

text \<open>\<open>n || d\<close> on numbers: \<open>NaN\<close> and zero are falsy.\<close>

definition orElse :: "jsnum \<Rightarrow> jsnum \<Rightarrow> jsnum" where
  "orElse n d = (if n = NaN \<or> n = Fin 0 then d else n)"

section \<open>k8s: the service resolver\<close>

record Resolution =
  res_namespace :: "string option"
  res_podName :: string
  res_serviceName :: "string option"
  res_environment :: string

text \<open>
  \<open>envMap[env]\<close> on a plain object also finds the members that every object inherits;
  such a member is truthy and has none of the fields of a ServiceDetails.
\<close>

definition objectPrototypeKeys :: "string list" where
  "objectPrototypeKeys =
     [''constructor'', ''__defineGetter__'', ''__defineSetter__'', ''hasOwnProperty'',
      ''__lookupGetter__'', ''__lookupSetter__'', ''isPrototypeOf'', ''propertyIsEnumerable'',
      ''toString'', ''valueOf'', ''__proto__'', ''toLocaleString'']"

definition resolveService ::
  "ServicesMap \<Rightarrow> string \<Rightarrow> string option \<Rightarrow> string option \<Rightarrow> Resolution option" where
  "resolveService servicesMap shortServiceName namespace' environment' =
     (case map_of servicesMap shortServiceName of
        None \<Rightarrow> None
      | Some envMap \<Rightarrow>
          (case (if truthy namespace'
                 then find (\<lambda>(_, d). namespace d = namespace') envMap else None) of
             Some (resolvedEnv, details) \<Rightarrow>
               Some \<lparr>res_namespace = namespace details,
                     res_podName = serviceName details @ ''-'' @ id' details,
                     res_serviceName = Some (serviceName details),
                     res_environment = resolvedEnv\<rparr>
           | None \<Rightarrow>
               (case (if truthy environment' then environment'
                      else (case envMap of [] \<Rightarrow> None | (k, _) # _ \<Rightarrow> Some k)) of
                  None \<Rightarrow> None
                | Some env \<Rightarrow>
                    (case map_of envMap env of
                       Some details \<Rightarrow>
                         Some \<lparr>res_namespace = namespace details,
                               res_podName = serviceName details @ ''-'' @ id' details,
                               res_serviceName = Some (serviceName details),
                               res_environment = env\<rparr>
                     | None \<Rightarrow>
                         if env \<in> set objectPrototypeKeys
                         then Some \<lparr>res_namespace = None,
                                    res_podName = render None @ ''-'' @ render None,
                                    res_serviceName = None,
                                    res_environment = env\<rparr>
                         else None))))"

section \<open>util\<close>

text \<open>\<open>Number.isInteger(n) && n > 0 && n <= 65535\<close>\<close>

definition isValidPort :: "jsnum \<Rightarrow> bool" where
  "isValidPort n =
     (case n of Fin q \<Rightarrow> of_int \<lfloor>q\<rfloor> = q \<and> q > 0 \<and> q \<le> 65535 | _ \<Rightarrow> False)"

section \<open>index: the tool handlers\<close>

record ResolvedService =
  rs_namespace :: "string option"
  rs_podName :: string
  localPort :: jsnum
  remotePort :: jsnum
  label :: string
  includeLogs :: bool
  rs_environment :: string

text \<open>
  The handle of a spawned child process records what was spawned. The registry
  \<open>portForwardProcesses\<close> is a list of handles; the handlers take it and return it
  updated, together with the effects they issued, in order.
\<close>

datatype proc = Proc string "string list"

datatype signal = SIGINT | SIGKILL

datatype event =
    ProcessOn string
  | OpenLogsInTerminal string string
  | Spawn string "string list"
  | Kill proc signal
  | SetTimeout nat
  | StderrWrite string

text \<open>
  \<open>v.k\<close> for the property names the handlers read: an object gives the value stored
  under the key (the last one, should the request repeat a key), anything else
  \<open>undefined\<close>.
\<close>

definition getProp :: "jsval \<Rightarrow> string \<Rightarrow> jsval" where
  "getProp v k =
     (case v of
        Obj kvs \<Rightarrow> (case map_of (rev kvs) k of None \<Rightarrow> Undefined | Some x \<Rightarrow> x)
      | _ \<Rightarrow> Undefined)"

text \<open>The body of the loop over the requested entries: \<open>Inl\<close> is the line pushed to \<open>errors\<close>.\<close>

definition processEntry ::
  "runtime \<Rightarrow> (string \<Rightarrow> ExecOutcome) \<Rightarrow> ServicesMap \<Rightarrow> nat \<Rightarrow> jsval
     \<Rightarrow> string + ResolvedService" where
  "processEntry rt exec servicesMap i s =
     (if \<not> (case s of Arr _ \<Rightarrow> True | Obj _ \<Rightarrow> True | _ \<Rightarrow> False)
      then Inl (''Entry '' @ showNat (i + 1) @ '': invalid object'')
      else
        let serviceName' = (case getProp s ''serviceName'' of Str x \<Rightarrow> trim x | _ \<Rightarrow> []);
            localPort' = (case getProp s ''localPort'' of Num n \<Rightarrow> n | v \<Rightarrow> toNumber rt v);
            remotePort' =
              (case getProp s ''remotePort'' of
                 Undefined \<Rightarrow> None
               | Null \<Rightarrow> None
               | Num n \<Rightarrow> Some n
               | v \<Rightarrow> Some (toNumber rt v));
            namespace' = (case getProp s ''namespace'' of Str x \<Rightarrow> Some x | _ \<Rightarrow> None);
            environment' = (case getProp s ''environment'' of Str x \<Rightarrow> Some x | _ \<Rightarrow> None);
            includeLogs' = (getProp s ''includeLogs'' \<noteq> Bool False)
        in if serviceName' = []
           then Inl (''Entry '' @ showNat (i + 1) @ '': serviceName is required'')
           else if \<not> isValidPort localPort'
           then Inl (''Entry '' @ showNat (i + 1) @ '': localPort must be 1-65535'')
           else if (case remotePort' of None \<Rightarrow> False | Some n \<Rightarrow> \<not> isValidPort n)
           then Inl (''Entry '' @ showNat (i + 1) @ '': remotePort must be 1-65535'')
           else
             case resolveService servicesMap serviceName' namespace' environment' of
               None \<Rightarrow>
                 Inl (''Entry '' @ showNat (i + 1) @ '': could not resolve service '' @ [CHR 0x22]
                      @ serviceName' @ [CHR 0x22]
                      @ (if truthy namespace' then '' in namespace '' @ render namespace' else [])
                      @ ''. Call list_k8s_services to see available names.'')
             | Some resolvedOne \<Rightarrow>
                 let remotePortFinal =
                       (case remotePort' of
                          Some n \<Rightarrow> n
                        | None \<Rightarrow>
                            orElse (parseInt10 rt (getServicePort exec (res_namespace resolvedOne)
                                                     (res_serviceName resolvedOne)))
                                   (Fin 3000));
                     envLabel = (if res_environment resolvedOne \<noteq> ''default''
                                 then res_environment resolvedOne @ ''~'' else [])
                 in Inr \<lparr>rs_namespace = res_namespace resolvedOne,
                         rs_podName = res_podName resolvedOne,
                         localPort = localPort',
                         remotePort = remotePortFinal,
                         label = envLabel @ serviceName' @ '':'' @ numToString rt localPort',
                         includeLogs = includeLogs',
                         rs_environment = res_environment resolvedOne\<rparr>)"

text \<open>The loop \<open>for (let i = 0; i < services.length; i++)\<close>, from index \<open>i\<close> on.\<close>

fun entriesLoop ::
  "runtime \<Rightarrow> (string \<Rightarrow> ExecOutcome) \<Rightarrow> ServicesMap \<Rightarrow> nat \<Rightarrow> jsval list
     \<Rightarrow> ResolvedService list \<times> string list \<Rightarrow> ResolvedService list \<times> string list" where
  "entriesLoop rt exec m i [] acc = acc"
| "entriesLoop rt exec m i (s # rest) (resolved, errors) =
     (case processEntry rt exec m i s of
        Inl e \<Rightarrow> entriesLoop rt exec m (Suc i) rest (resolved, errors @ [e])
      | Inr r \<Rightarrow> entriesLoop rt exec m (Suc i) rest (resolved @ [r], errors))"

definition logsCommand :: "ResolvedService \<Rightarrow> string" where
  "logsCommand r =
     ''kubectl logs --namespace '' @ render (rs_namespace r) @ '' '' @ rs_podName r @ '' -f''"

text \<open>
  The argument array of a port-forward; its namespace element may be \<open>undefined\<close>.
  \<open>join\<close> on the array renders an \<open>undefined\<close> element as the empty string, and
  \<open>spawn\<close> converts each argument to a string.
\<close>

definition portForwardArgs :: "runtime \<Rightarrow> ResolvedService \<Rightarrow> string option list" where
  "portForwardArgs rt r =
     [Some ''port-forward'', Some ''--namespace'', rs_namespace r, Some (rs_podName r),
      Some (numToString rt (localPort r) @ '':'' @ numToString rt (remotePort r))]"

definition portForwardCommand :: "runtime \<Rightarrow> ResolvedService \<Rightarrow> string" where
  "portForwardCommand rt r =
     ''kubectl '' @ join '' '' (map (\<lambda>a. case a of None \<Rightarrow> [] | Some x \<Rightarrow> x)
                                    (portForwardArgs rt r))"

definition spawnArgs :: "runtime \<Rightarrow> ResolvedService \<Rightarrow> string list" where
  "spawnArgs rt r = map render (portForwardArgs rt r)"

definition servicesError :: string where
  "servicesError =
     ''Error: '' @ [CHR 0x27] @ ''services'' @ [CHR 0x27]
     @ '' must be a non-empty array of objects with serviceName and localPort.''"

text \<open>
  The handler of \<open>start_k8s_port_forward\<close>. The result is \<open>Inl\<close> when the handler's
  promise is rejected (the pod listing failed, or the parser raised), the returned text
  otherwise.
\<close>

definition start_k8s_port_forward ::
  "runtime \<Rightarrow> (string \<Rightarrow> ExecOutcome) \<Rightarrow> jsval \<Rightarrow> proc list
     \<Rightarrow> (jserror + string) \<times> proc list \<times> event list" where
  "start_k8s_port_forward rt exec args portForwardProcesses =
     (case getProp args ''services'' of
        Arr services \<Rightarrow>
          if length services = 0
          then (Inr servicesError,
                portForwardProcesses, [])
          else
            (case getPods exec None of
               Inl e \<Rightarrow> (Inl e, portForwardProcesses, [])
             | Inr podsData \<Rightarrow>
                 (case parseServicesMap rt podsData None of
                    Inl e \<Rightarrow> (Inl e, portForwardProcesses, [])
                  | Inr servicesMap \<Rightarrow>
                      (case entriesLoop rt exec servicesMap 0 services ([], []) of
                         (resolved, errors) \<Rightarrow>
                           if length errors > 0
                           then (Inr (''Validation/resolution errors:'' @ [NL] @ join [NL] errors),
                                 portForwardProcesses, [])
                           else
                             let withLogs = filter includeLogs resolved;
                                 commands =
                                   map (\<lambda>r. ''# Logs: '' @ logsCommand r) withLogs
                                   @ map (portForwardCommand rt) resolved;
                                 summary =
                                   join [NL]
                                     (map (\<lambda>r. ''- '' @ label r @ '' -> http://localhost:''
                                                @ numToString rt (localPort r)
                                                @ '' (pod '' @ rs_podName r @ '')'') resolved);
                                 commandsBlock =
                                   ''To run in a VS Code terminal instead, use:'' @ [NL]
                                   @ [CHR 0x60, CHR 0x60, CHR 0x60, NL]
                                   @ join [NL] commands
                                   @ [NL, CHR 0x60, CHR 0x60, CHR 0x60]
                             in (Inr (''Port forwarding started for '' @ showNat (length resolved)
                                      @ '' service(s):'' @ [NL] @ summary @ [NL, NL] @ commandsBlock),
                                 portForwardProcesses
                                   @ map (\<lambda>r. Proc ''kubectl'' (spawnArgs rt r)) resolved,
                                 [ProcessOn ''SIGINT'', ProcessOn ''SIGTERM'']
                                   @ map (\<lambda>r. OpenLogsInTerminal (logsCommand r) (label r)) withLogs
                                   @ map (\<lambda>r. Spawn ''kubectl'' (spawnArgs rt r)) resolved))))
      | _ \<Rightarrow>
          (Inr servicesError,
           portForwardProcesses, []))"

text \<open>
  The handler of \<open>stop_k8s_port_forward\<close>. It is suspended during the grace wait; the
  second argument is the content of the registry when it resumes (the same list, unless
  another handler ran meanwhile). A \<open>kill\<close> that raises is ignored.
\<close>

definition stopMessage :: "nat \<Rightarrow> string" where
  "stopMessage killedCount =
     (if killedCount > 0 then ''Stopped '' @ showNat killedCount @ '' port-forward process(es).''
      else ''No active port-forwards to stop.'')"

definition stop_k8s_port_forward ::
  "proc list \<Rightarrow> proc list \<Rightarrow> string \<times> proc list \<times> event list" where
  "stop_k8s_port_forward portForwardProcesses afterWait =
     (let killedCount = length portForwardProcesses;
          message = stopMessage killedCount
      in (message, [],
          map (\<lambda>p. Kill p SIGINT) portForwardProcesses
          @ [SetTimeout 500]
          @ map (\<lambda>p. Kill p SIGKILL) afterWait
          @ [StderrWrite (message @ [NL])]))"

section \<open>Notions used to state the properties\<close>

text \<open>The identity stored under a short name and an environment tag.\<close>

definition lookup2 :: "ServicesMap \<Rightarrow> string \<Rightarrow> string \<Rightarrow> ServiceDetails option" where
  "lookup2 m short env = (case map_of m short of None \<Rightarrow> None | Some em \<Rightarrow> map_of em env)"

text \<open>The entries that the rows of a listing give, in the order of the rows.\<close>

definition rowEntries ::
  "runtime \<Rightarrow> string option \<Rightarrow> nat option \<Rightarrow> nat option \<Rightarrow> nat option \<Rightarrow> string list
     \<Rightarrow> (string \<times> string \<times> ServiceDetails) list" where
  "rowEntries rt ns nsI nmI stI rows =
     concat (map (\<lambda>line. case parseRow rt ns nsI nmI stI line of
                            Inr (Some entry) \<Rightarrow> [entry] | _ \<Rightarrow> []) rows)"

definition listingEntries ::
  "runtime \<Rightarrow> string \<Rightarrow> string option \<Rightarrow> (string \<times> string \<times> ServiceDetails) list" where
  "listingEntries rt podsData ns =
     (case splitOn NL (trim podsData) of
        [] \<Rightarrow> []
      | header # rows \<Rightarrow>
          rowEntries rt ns (indexOf (splitWs header) ''NAMESPACE'')
            (indexOf (splitWs header) ''NAME'') (indexOf (splitWs header) ''STATUS'') rows)"

text \<open>The identity of the last entry with a given short name and environment tag.\<close>

definition lastFor ::
  "(string \<times> string \<times> ServiceDetails) list \<Rightarrow> string \<Rightarrow> string \<Rightarrow> ServiceDetails option" where
  "lastFor entries short env =
     (case filter (\<lambda>(s, e, d). s = short \<and> e = env) entries of
        [] \<Rightarrow> None | es \<Rightarrow> Some (snd (snd (last es))))"

definition innerDistinct :: "ServicesMap \<Rightarrow> bool" where
  "innerDistinct m = (\<forall>s em. map_of m s = Some em \<longrightarrow> distinct (map fst em))"

text \<open>
  The short name as the rule of the parser's description gives it: the environment tag
  followed by a hyphen is removed from the front of the full service name when it stands
  there, then the namespace followed by a hyphen when it stands at the front of the rest.
\<close>

definition shortNameRule :: "string \<Rightarrow> string option \<Rightarrow> string \<Rightarrow> string" where
  "shortNameRule env ns full =
     (let afterEnv = (if env \<noteq> ''default'' \<and> startsWith full (env @ ''-'')
                      then drop (length env + 1) full else full)
      in case ns of
           None \<Rightarrow> afterEnv
         | Some n \<Rightarrow> if n \<noteq> [] \<and> startsWith afterEnv (n @ ''-'')
                     then drop (length n + 1) afterEnv else afterEnv)"

text \<open>
  The environment tag of a string as the rule of the parser's description gives it: the
  first of dev, qa, stg, prod that, followed by a hyphen, stands at its front.
\<close>

definition envTagRule :: "string \<Rightarrow> string" where
  "envTagRule x =
     (if startsWith x ''dev-'' then ''dev''
      else if startsWith x ''qa-'' then ''qa''
      else if startsWith x ''stg-'' then ''stg''
      else if startsWith x ''prod-'' then ''prod''
      else ''default'')"

text \<open>The outcomes of the entries of a request, numbered from \<open>i\<close>.\<close>

definition entryResults ::
  "runtime \<Rightarrow> (string \<Rightarrow> ExecOutcome) \<Rightarrow> ServicesMap \<Rightarrow> nat \<Rightarrow> jsval list
     \<Rightarrow> (string + ResolvedService) list" where
  "entryResults rt exec m i ss = map (\<lambda>(j, s). processEntry rt exec m j s) (enumerate i ss)"

text \<open>
  What the handler reads from an entry: the service name, trimmed (empty when the entry
  has none or it is not a string), the ports after conversion (no remote port when the
  entry has none), the namespace and the environment.
\<close>

definition isObject :: "jsval \<Rightarrow> bool" where
  "isObject s = (case s of Arr _ \<Rightarrow> True | Obj _ \<Rightarrow> True | _ \<Rightarrow> False)"

definition entryServiceName :: "jsval \<Rightarrow> string" where
  "entryServiceName s = (case getProp s ''serviceName'' of Str x \<Rightarrow> trim x | _ \<Rightarrow> [])"

definition entryLocalPort :: "runtime \<Rightarrow> jsval \<Rightarrow> jsnum" where
  "entryLocalPort rt s = (case getProp s ''localPort'' of Num n \<Rightarrow> n | v \<Rightarrow> toNumber rt v)"

definition entryRemotePort :: "runtime \<Rightarrow> jsval \<Rightarrow> jsnum option" where
  "entryRemotePort rt s =
     (case getProp s ''remotePort'' of
        Undefined \<Rightarrow> None
      | Null \<Rightarrow> None
      | Num n \<Rightarrow> Some n
      | v \<Rightarrow> Some (toNumber rt v))"

definition entryNamespace :: "jsval \<Rightarrow> string option" where
  "entryNamespace s = (case getProp s ''namespace'' of Str x \<Rightarrow> Some x | _ \<Rightarrow> None)"

definition entryEnvironment :: "jsval \<Rightarrow> string option" where
  "entryEnvironment s = (case getProp s ''environment'' of Str x \<Rightarrow> Some x | _ \<Rightarrow> None)"

text \<open>
  Why an entry fails, if it does, as the text that follows its number in the error
  line: it is not an object, its service name is missing or empty, its local port or
  its remote port is not a valid port, or the resolver finds no service for it.
\<close>

definition entryFailure :: "runtime \<Rightarrow> ServicesMap \<Rightarrow> jsval \<Rightarrow> string option" where
  "entryFailure rt m s =
     (if \<not> isObject s then Some '': invalid object''
      else if entryServiceName s = [] then Some '': serviceName is required''
      else if \<not> isValidPort (entryLocalPort rt s) then Some '': localPort must be 1-65535''
      else if (case entryRemotePort rt s of None \<Rightarrow> False | Some n \<Rightarrow> \<not> isValidPort n)
      then Some '': remotePort must be 1-65535''
      else if resolveService m (entryServiceName s) (entryNamespace s) (entryEnvironment s) = None
      then Some ('': could not resolve service '' @ [CHR 0x22] @ entryServiceName s @ [CHR 0x22]
                 @ (if truthy (entryNamespace s)
                    then '' in namespace '' @ render (entryNamespace s) else [])
                 @ ''. Call list_k8s_services to see available names.'')
      else None)"



text \<open>The error lines of the entries that fail, in the order of the entries.\<close>

definition entryErrors ::
  "runtime \<Rightarrow> (string \<Rightarrow> ExecOutcome) \<Rightarrow> ServicesMap \<Rightarrow> jsval list \<Rightarrow> string list" where
  "entryErrors rt exec m services =
     map (\<lambda>i. projl (processEntry rt exec m i (services ! i)))
       (filter (\<lambda>i. isl (processEntry rt exec m i (services ! i))) [0..<length services])"

text \<open>
  A port query gives no number when the tool fails, when its output is empty after
  trimming, or when the output does not begin with a decimal digit, after an optional
  sign. A result is a numeral when it is a non-empty run of decimal digits.
\<close>

definition isNumeral :: "string \<Rightarrow> bool" where
  "isNumeral x = (x \<noteq> [] \<and> list_all isDigit x)"

definition numericPrefix :: "string \<Rightarrow> bool" where
  "numericPrefix s =
     (case s of
        [] \<Rightarrow> False
      | c # r \<Rightarrow> if c = CHR ''-'' \<or> c = CHR ''+''
                 then (case r of [] \<Rightarrow> False | d # _ \<Rightarrow> isDigit d)
                 else isDigit c)"

definition givesNoNumber :: "ExecOutcome \<Rightarrow> bool" where
  "givesNoNumber out =
     (case execPromise out of
        Inl e \<Rightarrow> True
      | Inr port \<Rightarrow> trim port = [] \<or> \<not> numericPrefix (trim port))"

text \<open>
  A runtime for evaluating the model on concrete inputs. It agrees with the language on
  the conversions the examples use: \<open>Number\<close> of \<open>undefined\<close>, \<open>null\<close>, a boolean, a
  number, and a string that after trimming is empty or a short run of decimal digits
  (one that a double holds exactly), and the rendering of a small non-negative integer.
  Elsewhere it is a stand-in: it does not read signs, fractions, exponents or other
  radices in a string, it does not run regular expressions, and it does not round. The
  examples never reach those values.
\<close>

definition exampleRuntime :: runtime where
  "exampleRuntime =
     \<lparr>toNumber = (\<lambda>v. case v of
                      Undefined \<Rightarrow> NaN
                    | Null \<Rightarrow> Fin 0
                    | Bool b \<Rightarrow> Fin (if b then 1 else 0)
                    | Num n \<Rightarrow> n
                    | Str x \<Rightarrow> if trim x = [] then Fin 0
                               else if list_all isDigit (trim x)
                               then Fin (of_nat (digitsValue (trim x))) else NaN
                    | _ \<Rightarrow> NaN),
      numToString = (\<lambda>n. case n of
                      Fin q \<Rightarrow> if 0 \<le> q \<and> of_int \<lfloor>q\<rfloor> = q then showNat (nat \<lfloor>q\<rfloor>) else ''NaN''
                    | _ \<Rightarrow> ''NaN''),
      regexReplace = (\<lambda>pattern x. Inl SyntaxError),
      roundLarge = (\<lambda>v. Fin (of_int v))\<rparr>"

text \<open>A cluster with three running pods, and one in which every command fails.\<close>

definition exampleListing :: string where
  "exampleListing =
     ''NAMESPACE NAME READY STATUS RESTARTS AGE'' @ [NL]
     @ ''shop dev-shop-cart-7f9c-2x4k 1/1 Running 0 1d'' @ [NL]
     @ ''shop-stg stg-shop-cart-5d6b-9q8w 1/1 Running 0 1d'' @ [NL]
     @ ''shop dev-shop-mail-6c7d-1a2b 1/1 Running 0 1d''"

definition exampleCluster :: "string \<Rightarrow> ExecOutcome" where
  "exampleCluster cmd =
     (if cmd = ''kubectl get pods --all-namespaces''
      then \<lparr>error = None, stdout = exampleListing @ [NL], stderr = []\<rparr>
      else if cmd = servicePortCommand (Some ''shop'') (Some ''dev-shop-cart'')
      then \<lparr>error = None, stdout = ''8080'', stderr = []\<rparr>
      else \<lparr>error = Some ''Command failed'', stdout = [], stderr = []\<rparr>)"

definition failingCluster :: "string \<Rightarrow> ExecOutcome" where
  "failingCluster cmd = \<lparr>error = Some ''Command failed'', stdout = [], stderr = []\<rparr>"

text \<open>The map parsed from the listing of the example cluster, and two requests to it.\<close>

definition exampleMapParsed :: ServicesMap where
  "exampleMapParsed =
     [(''cart'', [(''dev'', \<lparr>id' = ''7f9c-2x4k'', namespace = Some ''shop'',
                               serviceName = ''dev-shop-cart''\<rparr>)]),
      (''shop-cart'', [(''stg'', \<lparr>id' = ''5d6b-9q8w'', namespace = Some ''shop-stg'',
                                    serviceName = ''stg-shop-cart''\<rparr>)]),
      (''mail'', [(''dev'', \<lparr>id' = ''6c7d-1a2b'', namespace = Some ''shop'',
                               serviceName = ''dev-shop-mail''\<rparr>)])]"


definition goodBatch :: "jsval list" where
  "goodBatch =
     [Obj [(''serviceName'', Str ''cart''), (''localPort'', Str ''3000'')],
      Obj [(''serviceName'', Str ''mail''), (''localPort'', Num (Fin 3001)),
           (''includeLogs'', Bool False)]]"

text \<open>A cluster whose port query prints a port with its protocol.\<close>

definition tcpCluster :: "string \<Rightarrow> ExecOutcome" where
  "tcpCluster cmd = \<lparr>error = None, stdout = ''80/TCP'' @ [NL], stderr = []\<rparr>"


text \<open>A cluster whose port query prints no number.\<close>

definition oddCluster :: "string \<Rightarrow> ExecOutcome" where
  "oddCluster cmd = \<lparr>error = None, stdout = ''<none>'' @ [NL], stderr = []\<rparr>"



definition numberPortEntry :: jsval where
  "numberPortEntry = Obj [(''serviceName'', Str ''cart''), (''localPort'', Num (Fin 3000))]"

text \<open>A map in which one short name has three environments, two of them in one namespace.\<close>

definition exampleMap :: ServicesMap where
  "exampleMap =
     [(''cart'',
       [(''prod'', \<lparr>id' = ''1a2b-3c4d'', namespace = Some ''shop-prod'', serviceName = ''prod-cart''\<rparr>),
        (''stg'', \<lparr>id' = ''5d6b-9q8w'', namespace = Some ''shared'', serviceName = ''stg-cart''\<rparr>),
        (''dev'', \<lparr>id' = ''7f9c-2x4k'', namespace = Some ''shared'', serviceName = ''dev-cart''\<rparr>)])]"

section \<open>Splitting and joining\<close>

lemma splitOn_nonempty: "splitOn c s \<noteq> []"
  by (induction s) (auto split: list.splits)

lemma join_Cons: "ps \<noteq> [] \<Longrightarrow> join sep (p # ps) = p @ sep @ join sep ps"
  by (cases ps) auto

lemma join_Cons_Cons: "join sep ((x # a) # ps) = x # join sep (a # ps)"
  by (cases ps) auto

lemma join_splitOn: "join [c] (splitOn c s) = s"
proof (induction s)
  case Nil
  then show ?case by simp
next
  case (Cons x xs)
  then show ?case
    using splitOn_nonempty [of c xs]
    by (cases "splitOn c xs") (auto simp: join_Cons join_Cons_Cons simp del: join.simps)
qed

lemma splitOn_pieces: "p \<in> set (splitOn c s) \<Longrightarrow> c \<notin> set p"
  by (induction s arbitrary: p) (auto split: if_splits list.splits)

lemma splitOn_append_sep: "c \<notin> set e \<Longrightarrow> splitOn c (e @ c # t) = e # splitOn c t"
  by (induction e) (auto split: list.splits)

lemma splitOn_no_sep: "c \<notin> set e \<Longrightarrow> splitOn c e = [e]"
  by (induction e) (auto split: list.splits)

lemma splitOn_join:
  "ps \<noteq> [] \<Longrightarrow> \<forall>p \<in> set ps. c \<notin> set p \<Longrightarrow> splitOn c (join [c] ps) = ps"
proof (induction ps)
  case Nil
  then show ?case by simp
next
  case (Cons p ps)
  show ?case
  proof (cases ps)
    case Nil
    with Cons.prems show ?thesis by (simp add: splitOn_no_sep)
  next
    case (Cons q qs)
    with Cons.prems Cons.IH show ?thesis by (simp add: splitOn_append_sep)
  qed
qed

lemma startsWith_iff: "startsWith s p \<longleftrightarrow> (\<exists>t. s = p @ t)"
  unfolding startsWith_def
  by (metis append_eq_conv_conj append_take_drop_id)

lemma startsWith_splitOn:
  assumes "c \<notin> set e"
  shows "startsWith s (e @ [c]) \<longleftrightarrow> (\<exists>r rs. splitOn c s = e # r # rs)"
proof
  assume "startsWith s (e @ [c])"
  then obtain t where "s = e @ c # t" by (auto simp: startsWith_iff)
  with assms have "splitOn c s = e # splitOn c t" by (simp add: splitOn_append_sep)
  then show "\<exists>r rs. splitOn c s = e # r # rs"
    using splitOn_nonempty [of c t] by (cases "splitOn c t") auto
next
  assume "\<exists>r rs. splitOn c s = e # r # rs"
  then obtain r rs where "splitOn c s = e # r # rs" by blast
  then have "join [c] (e # r # rs) = s" using join_splitOn [of c s] by simp
  then show "startsWith s (e @ [c])" by (auto simp: startsWith_iff)
qed

text \<open>
  A prefix \<open>e-\<close> stands at the front of the name without its last two segments exactly
  when it stands at the front of the name and the name has at least four segments.
\<close>

lemma startsWith_service_part:
  assumes "c \<notin> set e" and "2 < length (splitOn c s)"
  shows "startsWith (join [c] (take (length (splitOn c s) - 2) (splitOn c s))) (e @ [c])
           \<longleftrightarrow> 3 < length (splitOn c s) \<and> startsWith s (e @ [c])"
proof -
  let ?ps = "splitOn c s"
  let ?front = "take (length ?ps - 2) ?ps"
  have ne: "?front \<noteq> []" using assms(2) by auto
  have "\<forall>p \<in> set ?front. c \<notin> set p"
    by (meson in_set_takeD splitOn_pieces)
  with ne have sp: "splitOn c (join [c] ?front) = ?front" by (rule splitOn_join)
  have "startsWith (join [c] ?front) (e @ [c]) \<longleftrightarrow> (\<exists>r rs. ?front = e # r # rs)"
    using startsWith_splitOn [OF assms(1), of "join [c] ?front"] sp by simp
  also have "\<dots> \<longleftrightarrow> 3 < length ?ps \<and> (\<exists>r rs. ?ps = e # r # rs)"
  proof
    assume "\<exists>r rs. ?front = e # r # rs"
    then obtain r rs where f: "?front = e # r # rs" by blast
    then have "length ?front \<ge> 2" by simp
    then have len: "3 < length ?ps" using assms(2) by simp
    have "?ps = ?front @ drop (length ?ps - 2) ?ps" by simp
    with f have "?ps = e # r # (rs @ drop (length ?ps - 2) ?ps)" by simp
    with len show "3 < length ?ps \<and> (\<exists>r rs. ?ps = e # r # rs)" by blast
  next
    assume "3 < length ?ps \<and> (\<exists>r rs. ?ps = e # r # rs)"
    then obtain r rs where len: "3 < length ?ps" and p: "?ps = e # r # rs" by blast
    from len p obtain k where k: "length ?ps - 2 = Suc (Suc k)"
      by (cases "length ?ps - 2"; cases "length ?ps - 3"; simp)
    have "?front = take (Suc (Suc k)) (e # r # rs)" using p k by simp
    then have "?front = e # r # take k rs" by simp
    then show "\<exists>r rs. ?front = e # r # rs" by blast
  qed
  also have "\<dots> \<longleftrightarrow> 3 < length ?ps \<and> startsWith s (e @ [c])"
    using startsWith_splitOn [OF assms(1), of s] by simp
  finally show ?thesis .
qed

section \<open>The parser\<close>

text \<open>What a row that gives an entry looks like.\<close>

lemma parseRow_entry:
  assumes "parseRow rt ns nsI nmI stI line = Inr (Some (short, env, d))"
  obtains name where
    "elemAt (splitWs line) nmI = Some name"
    "2 < length (splitOn CHR ''-'' name)"
    "env = envPrefixOf name"
    "serviceName d =
       join ''-'' (take (length (splitOn CHR ''-'' name) - 2) (splitOn CHR ''-'' name))"
    "id' d = join ''-'' (drop (length (splitOn CHR ''-'' name) - 2) (splitOn CHR ''-'' name))"
    "namespace d = (case ns of Some n \<Rightarrow> Some n | None \<Rightarrow> elemAt (splitWs line) nsI)"
    "(case namespace d of
        None \<Rightarrow> Inr (stripEnvPrefix (serviceName d))
      | Some n \<Rightarrow> if n \<noteq> [] then stripNamespacePrefix rt n (stripEnvPrefix (serviceName d))
                  else Inr (stripEnvPrefix (serviceName d))) = Inr short"
  using assms
  unfolding parseRow_def Let_def
  by (fastforce split: option.splits if_splits sum.splits)

lemma env_prefix_hyphen_free: "e \<in> set ENV_PREFIXES \<Longrightarrow> CHR ''-'' \<notin> set e"
  by (auto simp: ENV_PREFIXES_def)

lemma find_env_in: "find P ENV_PREFIXES = Some e \<Longrightarrow> e \<in> set ENV_PREFIXES \<and> P e"
  by (auto simp: find_Some_iff)

lemma default_not_env: "e \<in> set ENV_PREFIXES \<Longrightarrow> e \<noteq> ''default''"
  by (auto simp: ENV_PREFIXES_def)

lemma find_env_cong:
  "(\<And>e. e \<in> set ENV_PREFIXES \<Longrightarrow> P e = Q e) \<Longrightarrow> find P ENV_PREFIXES = find Q ENV_PREFIXES"
  by (rule find_cong) auto

lemma full_prefix_iff:
  assumes "2 < length (splitOn CHR ''-'' name)" and "e \<in> set ENV_PREFIXES"
  shows "startsWith (join ''-'' (take (length (splitOn CHR ''-'' name) - 2) (splitOn CHR ''-'' name)))
           (e @ ''-'')
         \<longleftrightarrow> 3 < length (splitOn CHR ''-'' name) \<and> startsWith name (e @ ''-'')"
  using startsWith_service_part [OF env_prefix_hyphen_free [OF assms(2)] assms(1)] by simp

lemma stripEnvPrefix_rule:
  assumes len: "2 < length (splitOn CHR ''-'' name)"
    and full: "full = join ''-'' (take (length (splitOn CHR ''-'' name) - 2) (splitOn CHR ''-'' name))"
  shows "stripEnvPrefix full =
           (if envPrefixOf name \<noteq> ''default'' \<and> startsWith full (envPrefixOf name @ ''-'')
            then drop (length (envPrefixOf name) + 1) full else full)"
proof -
  let ?n = "length (splitOn CHR ''-'' name)"
  let ?P = "\<lambda>env. startsWith name (env @ ''-'')"
  have eq: "find (\<lambda>env. startsWith full (env @ ''-'')) ENV_PREFIXES
              = find (\<lambda>env. 3 < ?n \<and> ?P env) ENV_PREFIXES"
    by (rule find_env_cong) (simp add: full full_prefix_iff [OF len])
  show ?thesis
  proof (cases "3 < ?n")
    case True
    show ?thesis
    proof (cases "find ?P ENV_PREFIXES")
      case None
      with True eq show ?thesis by (simp add: stripEnvPrefix_def envPrefixOf_def)
    next
      case (Some e)
      then have e: "e \<in> set ENV_PREFIXES" "?P e" using find_env_in by blast+
      then have "startsWith full (e @ ''-'')" using True full full_prefix_iff [OF len] by simp
      with Some True eq e show ?thesis
        by (simp add: stripEnvPrefix_def envPrefixOf_def default_not_env)
    qed
  next
    case False
    then have none: "find (\<lambda>env. startsWith full (env @ ''-'')) ENV_PREFIXES = None"
      using eq by (simp add: find_None_iff)
    have "\<not> (envPrefixOf name \<noteq> ''default'' \<and> startsWith full (envPrefixOf name @ ''-''))"
    proof (cases "find ?P ENV_PREFIXES")
      case None
      then show ?thesis by (simp add: envPrefixOf_def)
    next
      case (Some e)
      then have "e \<in> set ENV_PREFIXES" using find_env_in by blast
      then have "\<not> startsWith full (e @ ''-'')" using False full full_prefix_iff [OF len] by simp
      with Some show ?thesis by (simp add: envPrefixOf_def)
    qed
    with none show ?thesis by (auto simp: stripEnvPrefix_def)
  qed
qed

lemma envPrefixOf_rule: "envPrefixOf x = envTagRule x"
  by (simp add: envPrefixOf_def envTagRule_def ENV_PREFIXES_def)

lemma lookup2_upsert:
  "lookup2 (upsert m s e d) s' e' = (if s' = s \<and> e' = e then Some d else lookup2 m s' e')"
  by (auto simp: lookup2_def upsert_def Let_def update_conv' split: option.splits)

lemma distinct_keys_upsert: "distinct (map fst m) \<Longrightarrow> distinct (map fst (upsert m s e d))"
  by (simp add: upsert_def Let_def distinct_update)

lemma innerDistinct_upsert: "innerDistinct m \<Longrightarrow> innerDistinct (upsert m s e d)"
  by (auto simp: innerDistinct_def upsert_def Let_def update_conv' distinct_update
           split: option.splits if_splits)

lemma parseRows_keys:
  "parseRows rt ns nsI nmI stI rows m0 = Inr m \<Longrightarrow> distinct (map fst m0) \<Longrightarrow> innerDistinct m0
     \<Longrightarrow> distinct (map fst m) \<and> innerDistinct m"
proof (induction rows arbitrary: m0)
  case Nil
  then show ?case by simp
next
  case (Cons line rest)
  then show ?case
    by (auto split: sum.splits option.splits prod.splits
             intro: distinct_keys_upsert innerDistinct_upsert)
qed

lemma lastFor_Cons:
  "lastFor ((s, e, d) # es) short env =
     (case lastFor es short env of
        Some d' \<Rightarrow> Some d'
      | None \<Rightarrow> if s = short \<and> e = env then Some d else None)"
  by (auto simp: lastFor_def split: list.splits)

lemma parseRows_lookup:
  "parseRows rt ns nsI nmI stI rows m0 = Inr m \<Longrightarrow>
     lookup2 m short env =
       (case lastFor (rowEntries rt ns nsI nmI stI rows) short env of
          Some d \<Rightarrow> Some d | None \<Rightarrow> lookup2 m0 short env)"
proof (induction rows arbitrary: m0)
  case Nil
  then show ?case by (simp add: rowEntries_def lastFor_def)
next
  case (Cons line rest)
  show ?case
  proof (cases "parseRow rt ns nsI nmI stI line")
    case (Inl e)
    with Cons.prems show ?thesis by simp
  next
    case (Inr r)
    show ?thesis
    proof (cases r)
      case None
      with Inr Cons.prems have "parseRows rt ns nsI nmI stI rest m0 = Inr m" by simp
      from Cons.IH [OF this] Inr None show ?thesis by (simp add: rowEntries_def)
    next
      case (Some entry)
      obtain s e d where entry: "entry = (s, e, d)" by (cases entry)
      with Some Inr Cons.prems have "parseRows rt ns nsI nmI stI rest (upsert m0 s e d) = Inr m"
        by simp
      from Cons.IH [OF this]
      have "lookup2 m short env =
              (case lastFor (rowEntries rt ns nsI nmI stI rest) short env of
                 Some d' \<Rightarrow> Some d' | None \<Rightarrow> lookup2 (upsert m0 s e d) short env)" .
      moreover have "rowEntries rt ns nsI nmI stI (line # rest) =
                       (s, e, d) # rowEntries rt ns nsI nmI stI rest"
        using Inr Some entry by (simp add: rowEntries_def)
      ultimately show ?thesis
        by (simp add: lastFor_Cons lookup2_upsert split: option.splits)
    qed
  qed
qed

lemmas parse_eval =
  parseServicesMap_def trim_def isSpace_def parseRow_def elemAt_def envPrefixOf_def
  stripEnvPrefix_def ENV_PREFIXES_def startsWith_def stripNamespacePrefix_def
  regexSyntaxChars_def upsert_def Let_def

subsection \<open>Short names\<close>

text \<open>
  C2 (as amended). For the pod \<open>dev-billing-api-7f9c-2x4k\<close> listed with the explicit
  namespace \<open>billing-api\<close> the parser stores, under the short name \<open>billing-api\<close> and the
  environment tag \<open>dev\<close>, the id \<open>7f9c-2x4k\<close> and the full service name
  \<open>dev-billing-api\<close>. In general, for a namespace without regular-expression syntax
  characters, the short name of a row is the full service name with the environment
  tag and a hyphen removed from its front when they stand there, and then the
  namespace and a hyphen removed when they stand at the front of the rest.
\<close>

theorem short_name_rule:
  "parseServicesMap rt
       (''NAME READY STATUS'' @ [NL] @ ''dev-billing-api-7f9c-2x4k 1/1 Running'')
       (Some ''billing-api'')
     = Inr [(''billing-api'',
             [(''dev'', \<lparr>id' = ''7f9c-2x4k'', namespace = Some ''billing-api'',
                         serviceName = ''dev-billing-api''\<rparr>)])]
   \<and> (parseRow rt ns nsI nmI stI line = Inr (Some (short, env, d))
        \<longrightarrow> (\<forall>n. namespace d = Some n \<longrightarrow> (\<forall>c \<in> set n. c \<notin> set regexSyntaxChars))
        \<longrightarrow> short = shortNameRule env (namespace d) (serviceName d))"
proof (intro conjI impI)
  show "parseServicesMap rt
       (''NAME READY STATUS'' @ [NL] @ ''dev-billing-api-7f9c-2x4k 1/1 Running'')
       (Some ''billing-api'')
     = Inr [(''billing-api'',
             [(''dev'', \<lparr>id' = ''7f9c-2x4k'', namespace = Some ''billing-api'',
                         serviceName = ''dev-billing-api''\<rparr>)])]"
    by (simp add: parseServicesMap_def trim_def isSpace_def parseRow_def elemAt_def
          envPrefixOf_def stripEnvPrefix_def ENV_PREFIXES_def startsWith_def
          stripNamespacePrefix_def regexSyntaxChars_def upsert_def Let_def)
next
  assume row: "parseRow rt ns nsI nmI stI line = Inr (Some (short, env, d))"
    and lit: "\<forall>n. namespace d = Some n \<longrightarrow> (\<forall>c \<in> set n. c \<notin> set regexSyntaxChars)"
  from row obtain name where
    len: "2 < length (splitOn CHR ''-'' name)"
    and env: "env = envPrefixOf name"
    and full: "serviceName d =
       join ''-'' (take (length (splitOn CHR ''-'' name) - 2) (splitOn CHR ''-'' name))"
    and strip: "(case namespace d of
        None \<Rightarrow> Inr (stripEnvPrefix (serviceName d))
      | Some n \<Rightarrow> if n \<noteq> [] then stripNamespacePrefix rt n (stripEnvPrefix (serviceName d))
                  else Inr (stripEnvPrefix (serviceName d))) = Inr short"
    by (rule parseRow_entry)
  have afterEnv: "stripEnvPrefix (serviceName d) =
      (if env \<noteq> ''default'' \<and> startsWith (serviceName d) (env @ ''-'')
       then drop (length env + 1) (serviceName d) else serviceName d)"
    using stripEnvPrefix_rule [OF len full] env by simp
  have rule: "shortNameRule env (namespace d) (serviceName d) =
      (case namespace d of
         None \<Rightarrow> stripEnvPrefix (serviceName d)
       | Some n \<Rightarrow> if n \<noteq> [] \<and> startsWith (stripEnvPrefix (serviceName d)) (n @ ''-'')
                   then drop (length n + 1) (stripEnvPrefix (serviceName d))
                   else stripEnvPrefix (serviceName d))"
    unfolding shortNameRule_def Let_def afterEnv [symmetric] ..
  show "short = shortNameRule env (namespace d) (serviceName d)"
  proof (cases "namespace d")
    case None
    with strip show ?thesis unfolding rule by simp
  next
    case (Some n)
    with lit have "\<not> (\<exists>c \<in> set n. c \<in> set regexSyntaxChars)" by simp
    with strip Some show ?thesis
      unfolding rule by (simp add: stripNamespacePrefix_def split: if_splits)
  qed
qed


theorem short_name_rule_witness:
  "parseRow exampleRuntime None (Some 0) (Some 1) (Some 3)
       ''shop dev-shop-cart-7f9c-2x4k 1/1 Running 0 1d''
     = Inr (Some (''cart'', ''dev'',
          \<lparr>id' = ''7f9c-2x4k'', namespace = Some ''shop'', serviceName = ''dev-shop-cart''\<rparr>))
   \<and> ''cart'' = shortNameRule ''dev'' (Some ''shop'') ''dev-shop-cart''"
proof -
  let ?d = "\<lparr>id' = ''7f9c-2x4k'', namespace = Some ''shop'', serviceName = ''dev-shop-cart''\<rparr>"
  have row: "parseRow exampleRuntime None (Some 0) (Some 1) (Some 3)
               ''shop dev-shop-cart-7f9c-2x4k 1/1 Running 0 1d''
             = Inr (Some (''cart'', ''dev'', ?d))"
    by (simp add: parse_eval)
  have lit: "\<forall>n. namespace ?d = Some n \<longrightarrow> (\<forall>c \<in> set n. c \<notin> set regexSyntaxChars)"
    by (simp add: regexSyntaxChars_def)
  from short_name_rule [of exampleRuntime None "Some 0" "Some 1" "Some 3"
      "''shop dev-shop-cart-7f9c-2x4k 1/1 Running 0 1d''" "''cart''" "''dev''" ?d] row lit
  have "''cart'' = shortNameRule ''dev'' (namespace ?d) (serviceName ?d)" by blast
  with row show ?thesis by simp
qed

text \<open>
  The listing of C2 as the claim words it: no entry is stored under the short name
  \<open>api\<close>, and the stored full service name is not \<open>dev-billing-api-api\<close>.
\<close>

theorem short_name_example_counterexample:
  "parseServicesMap exampleRuntime
       (''NAME READY STATUS'' @ [NL] @ ''dev-billing-api-7f9c-2x4k 1/1 Running'')
       (Some ''billing-api'')
     \<noteq> Inr [(''api'',
             [(''dev'', \<lparr>id' = ''7f9c-2x4k'', namespace = Some ''billing-api'',
                         serviceName = ''dev-billing-api-api''\<rparr>)])]
   \<and> lookup2 (projr (parseServicesMap exampleRuntime
          (''NAME READY STATUS'' @ [NL] @ ''dev-billing-api-7f9c-2x4k 1/1 Running'')
          (Some ''billing-api''))) ''api'' ''dev'' = None"
  by (simp add: parse_eval lookup2_def)

subsection \<open>Environment tags\<close>

text \<open>
  C3 (as amended). For every row that gives an entry, the environment tag is the first
  of dev, qa, stg, prod that, followed by a hyphen, stands at the front of the pod name,
  and \<open>default\<close> when none does; when the pod name has at least four segments, the same
  holds with the full service name in place of the pod name.
\<close>

theorem env_tag_rule:
  "parseRow rt ns nsI nmI stI line = Inr (Some (short, env, d))
     \<longrightarrow> elemAt (splitWs line) nmI = Some name
     \<longrightarrow> env = envTagRule name
         \<and> (3 < length (splitOn CHR ''-'' name) \<longrightarrow> env = envTagRule (serviceName d))"
proof (intro impI)
  assume row: "parseRow rt ns nsI nmI stI line = Inr (Some (short, env, d))"
    and name: "elemAt (splitWs line) nmI = Some name"
  from row name have
    len: "2 < length (splitOn CHR ''-'' name)"
    and env: "env = envPrefixOf name"
    and full: "serviceName d =
       join ''-'' (take (length (splitOn CHR ''-'' name) - 2) (splitOn CHR ''-'' name))"
    by (auto elim!: parseRow_entry)
  have "envPrefixOf (serviceName d) = envPrefixOf name" if four: "3 < length (splitOn CHR ''-'' name)"
  proof -
    have "find (\<lambda>e. startsWith (serviceName d) (e @ ''-'')) ENV_PREFIXES
            = find (\<lambda>e. startsWith name (e @ ''-'')) ENV_PREFIXES"
      by (rule find_env_cong) (simp add: full full_prefix_iff [OF len] four)
    then show ?thesis by (simp add: envPrefixOf_def)
  qed
  with env show "env = envTagRule name
         \<and> (3 < length (splitOn CHR ''-'' name) \<longrightarrow> env = envTagRule (serviceName d))"
    by (simp add: envPrefixOf_rule)
qed

theorem env_tag_rule_witness:
  "parseRow exampleRuntime None (Some 0) (Some 1) (Some 3)
       ''shop-stg stg-shop-cart-5d6b-9q8w 1/1 Running 0 1d''
     = Inr (Some (''shop-cart'', ''stg'',
          \<lparr>id' = ''5d6b-9q8w'', namespace = Some ''shop-stg'', serviceName = ''stg-shop-cart''\<rparr>))
   \<and> envTagRule ''stg-shop-cart-5d6b-9q8w'' = ''stg''
   \<and> envTagRule ''stg-shop-cart'' = ''stg''"
proof -
  let ?line = "''shop-stg stg-shop-cart-5d6b-9q8w 1/1 Running 0 1d''"
  let ?d = "\<lparr>id' = ''5d6b-9q8w'', namespace = Some ''shop-stg'', serviceName = ''stg-shop-cart''\<rparr>"
  have row: "parseRow exampleRuntime None (Some 0) (Some 1) (Some 3) ?line
             = Inr (Some (''shop-cart'', ''stg'', ?d))"
    by (simp add: parse_eval)
  have name: "elemAt (splitWs ?line) (Some 1) = Some ''stg-shop-cart-5d6b-9q8w''"
    by (simp add: elemAt_def isSpace_def)
  have four: "3 < length (splitOn CHR ''-'' ''stg-shop-cart-5d6b-9q8w'')"
    by simp
  note r = env_tag_rule [of exampleRuntime None "Some 0" "Some 1" "Some 3" ?line
      "''shop-cart''" "''stg''" ?d "''stg-shop-cart-5d6b-9q8w''", rule_format, OF row name]
  from r have a: "''stg'' = envTagRule ''stg-shop-cart-5d6b-9q8w''" by (rule conjunct1)
  from r have "3 < length (splitOn CHR ''-'' ''stg-shop-cart-5d6b-9q8w'')
                 \<longrightarrow> ''stg'' = envTagRule (serviceName ?d)" by (rule conjunct2)
  with four have b: "''stg'' = envTagRule (serviceName ?d)" by (rule rev_mp)
  show ?thesis using row a [symmetric] b [symmetric] by simp
qed

text \<open>
  A pod name of three segments whose first is \<open>dev\<close>: the tag is \<open>dev\<close>, though the full
  service name \<open>dev\<close> has none of the prefixes at its front.
\<close>

theorem env_tag_full_name_counterexample:
  "parseServicesMap exampleRuntime
       (''NAME READY STATUS'' @ [NL] @ ''dev-7f9c-2x4k 1/1 Running'') None
     = Inr [(''dev'',
             [(''dev'', \<lparr>id' = ''7f9c-2x4k'', namespace = None, serviceName = ''dev''\<rparr>)])]
   \<and> envTagRule ''dev'' = ''default''"
  by (simp add: parse_eval envTagRule_def)

subsection \<open>Rows with missing columns\<close>

text \<open>
  C4. A row that has no column under the NAME header makes the parser raise a
  TypeError: the name of the pod is \<open>undefined\<close> there, and the parser calls
  \<open>startsWith\<close> on it.
\<close>

theorem parse_raises_on_short_row:
  "parseServicesMap rt
       (''NAMESPACE NAME READY STATUS RESTARTS AGE'' @ [NL]
        @ ''shop dev-shop-cart-7f9c-2x4k 1/1 Running 0 1d'' @ [NL]
        @ ''shop'') None
     = Inl TypeError"
  by (simp add: parse_eval)

subsection \<open>One identity for each short name and environment\<close>

text \<open>
  C9. In the map the parser returns, the short names are distinct and so are the
  environment tags under each short name, so a short name and an environment tag have
  at most one identity; that identity is the one of the last row of the listing that
  gives an entry for the pair.
\<close>

theorem last_row_wins:
  "parseServicesMap rt podsData ns = Inr m
     \<longrightarrow> distinct (map fst m)
         \<and> (\<forall>(short, envMap) \<in> set m. distinct (map fst envMap))
         \<and> (\<forall>short env. lookup2 m short env = lastFor (listingEntries rt podsData ns) short env)"
proof
  assume ok: "parseServicesMap rt podsData ns = Inr m"
  obtain header rows where lines: "splitOn NL (trim podsData) = header # rows"
    using splitOn_nonempty [of NL "trim podsData"] by (cases "splitOn NL (trim podsData)") auto
  let ?nsI = "indexOf (splitWs header) ''NAMESPACE''"
  let ?nmI = "indexOf (splitWs header) ''NAME''"
  let ?stI = "indexOf (splitWs header) ''STATUS''"
  from ok lines have rows: "parseRows rt ns ?nsI ?nmI ?stI rows [] = Inr m"
    by (simp add: parseServicesMap_def Let_def)
  have entries: "listingEntries rt podsData ns = rowEntries rt ns ?nsI ?nmI ?stI rows"
    using lines by (simp add: listingEntries_def)
  have keys: "distinct (map fst m) \<and> innerDistinct m"
    using parseRows_keys [OF rows] by (simp add: innerDistinct_def)
  have inner: "\<forall>(short, envMap) \<in> set m. distinct (map fst envMap)"
  proof (clarify)
    fix short envMap assume "(short, envMap) \<in> set m"
    with keys have "map_of m short = Some envMap" by simp
    with keys show "distinct (map fst envMap)" unfolding innerDistinct_def by blast
  qed
  have "\<forall>short env. lookup2 m short env = lastFor (listingEntries rt podsData ns) short env"
    using parseRows_lookup [OF rows] entries
    by (simp add: lookup2_def split: option.splits)
  with keys inner show "distinct (map fst m)
         \<and> (\<forall>(short, envMap) \<in> set m. distinct (map fst envMap))
         \<and> (\<forall>short env. lookup2 m short env = lastFor (listingEntries rt podsData ns) short env)"
    by blast
qed

theorem last_row_wins_witness:
  "parseServicesMap exampleRuntime
       (''NAME READY STATUS'' @ [NL]
        @ ''dev-cart-7f9c-2x4k 1/1 Running'' @ [NL]
        @ ''dev-cart-7f9c-8z9y 1/1 Running'') (Some ''shop'')
     = Inr [(''cart'', [(''dev'', \<lparr>id' = ''7f9c-8z9y'', namespace = Some ''shop'',
                                   serviceName = ''dev-cart''\<rparr>)])]
   \<and> lastFor (listingEntries exampleRuntime
         (''NAME READY STATUS'' @ [NL]
          @ ''dev-cart-7f9c-2x4k 1/1 Running'' @ [NL]
          @ ''dev-cart-7f9c-8z9y 1/1 Running'') (Some ''shop'')) ''cart'' ''dev''
     = Some \<lparr>id' = ''7f9c-8z9y'', namespace = Some ''shop'', serviceName = ''dev-cart''\<rparr>"
proof -
  let ?text = "''NAME READY STATUS'' @ [NL]
        @ ''dev-cart-7f9c-2x4k 1/1 Running'' @ [NL]
        @ ''dev-cart-7f9c-8z9y 1/1 Running''"
  let ?d = "\<lparr>id' = ''7f9c-8z9y'', namespace = Some ''shop'', serviceName = ''dev-cart''\<rparr>"
  have ok: "parseServicesMap exampleRuntime ?text (Some ''shop'') = Inr [(''cart'', [(''dev'', ?d)])]"
    by (simp add: parse_eval)
  from last_row_wins [of exampleRuntime ?text "Some ''shop''" "[(''cart'', [(''dev'', ?d)])]"] ok
  have "lookup2 [(''cart'', [(''dev'', ?d)])] ''cart'' ''dev''
          = lastFor (listingEntries exampleRuntime ?text (Some ''shop'')) ''cart'' ''dev''"
    by blast
  moreover have "lookup2 [(''cart'', [(''dev'', ?d)])] ''cart'' ''dev'' = Some ?d"
    by (simp add: lookup2_def)
  ultimately have "lastFor (listingEntries exampleRuntime ?text (Some ''shop'')) ''cart'' ''dev''
          = Some ?d" by simp
  with ok show ?thesis by blast
qed

section \<open>The resolver\<close>

lemma find_first:
  "P x \<Longrightarrow> \<forall>y \<in> set pre. \<not> P y \<Longrightarrow> find P (pre @ x # post) = Some x"
  by (induction pre) auto

text \<open>
  C5. When a (non-empty) namespace is given and some entry under the short name has it,
  the first such entry in the order of the map is returned with its own environment
  tag, whatever environment was requested. When no entry has it, the resolver does not
  fail for that: the result is that of the same call without a namespace, which is the
  entry of the requested environment when one is requested and present, and the first
  entry of the map when no environment is requested.
\<close>

theorem namespace_match_wins:
  "map_of servicesMap shortName = Some envMap \<longrightarrow> ns \<noteq> [] \<longrightarrow>
     (\<forall>pre env d post.
        envMap = pre @ (env, d) # post \<and> namespace d = Some ns
          \<and> (\<forall>(env', d') \<in> set pre. namespace d' \<noteq> Some ns)
        \<longrightarrow> resolveService servicesMap shortName (Some ns) requested
              = Some \<lparr>res_namespace = Some ns,
                      res_podName = serviceName d @ ''-'' @ id' d,
                      res_serviceName = Some (serviceName d),
                      res_environment = env\<rparr>)
     \<and> ((\<forall>(env, d) \<in> set envMap. namespace d \<noteq> Some ns)
        \<longrightarrow> resolveService servicesMap shortName (Some ns) requested
              = resolveService servicesMap shortName None requested
            \<and> (\<forall>env d. requested = Some env \<and> env \<noteq> [] \<and> map_of envMap env = Some d
                 \<longrightarrow> resolveService servicesMap shortName (Some ns) requested
                       = Some \<lparr>res_namespace = namespace d,
                               res_podName = serviceName d @ ''-'' @ id' d,
                               res_serviceName = Some (serviceName d),
                               res_environment = env\<rparr>)
            \<and> (\<forall>env d rest. (requested = None \<or> requested = Some []) \<and> envMap = (env, d) # rest
                 \<longrightarrow> resolveService servicesMap shortName (Some ns) requested
                       = Some \<lparr>res_namespace = namespace d,
                               res_podName = serviceName d @ ''-'' @ id' d,
                               res_serviceName = Some (serviceName d),
                               res_environment = env\<rparr>))"
proof (intro impI conjI allI)
  fix pre env d post
  assume m: "map_of servicesMap shortName = Some envMap" and ns: "ns \<noteq> []"
    and e: "envMap = pre @ (env, d) # post \<and> namespace d = Some ns
          \<and> (\<forall>(env', d') \<in> set pre. namespace d' \<noteq> Some ns)"
  then have "find (\<lambda>(_, d). namespace d = Some ns) envMap = Some (env, d)"
    by (auto intro!: find_first)
  with m ns e show "resolveService servicesMap shortName (Some ns) requested
              = Some \<lparr>res_namespace = Some ns,
                      res_podName = serviceName d @ ''-'' @ id' d,
                      res_serviceName = Some (serviceName d),
                      res_environment = env\<rparr>"
    by (simp add: resolveService_def truthy_def)
next
  assume m: "map_of servicesMap shortName = Some envMap" and ns: "ns \<noteq> []"
    and none: "\<forall>(env, d) \<in> set envMap. namespace d \<noteq> Some ns"
  then have "find (\<lambda>(_, d). namespace d = Some ns) envMap = None"
    by (auto simp: find_None_iff)
  with m show "resolveService servicesMap shortName (Some ns) requested
              = resolveService servicesMap shortName None requested"
    by (simp add: resolveService_def truthy_def)
next
  fix env d
  assume m: "map_of servicesMap shortName = Some envMap" and ns: "ns \<noteq> []"
    and none: "\<forall>(env, d) \<in> set envMap. namespace d \<noteq> Some ns"
    and req: "requested = Some env \<and> env \<noteq> [] \<and> map_of envMap env = Some d"
  from none have "find (\<lambda>(_, d). namespace d = Some ns) envMap = None"
    by (auto simp: find_None_iff)
  with m req show "resolveService servicesMap shortName (Some ns) requested
                       = Some \<lparr>res_namespace = namespace d,
                               res_podName = serviceName d @ ''-'' @ id' d,
                               res_serviceName = Some (serviceName d),
                               res_environment = env\<rparr>"
    by (simp add: resolveService_def truthy_def)
next
  fix env d rest
  assume m: "map_of servicesMap shortName = Some envMap" and ns: "ns \<noteq> []"
    and none: "\<forall>(env, d) \<in> set envMap. namespace d \<noteq> Some ns"
    and req: "(requested = None \<or> requested = Some []) \<and> envMap = (env, d) # rest"
  from none have "find (\<lambda>(_, d). namespace d = Some ns) envMap = None"
    by (auto simp: find_None_iff)
  with m req show "resolveService servicesMap shortName (Some ns) requested
                       = Some \<lparr>res_namespace = namespace d,
                               res_podName = serviceName d @ ''-'' @ id' d,
                               res_serviceName = Some (serviceName d),
                               res_environment = env\<rparr>"
    by (auto simp: resolveService_def truthy_def)
qed

theorem namespace_match_wins_witness:
  "resolveService exampleMap ''cart'' (Some ''shared'') (Some ''prod'')
     = Some \<lparr>res_namespace = Some ''shared'', res_podName = ''stg-cart-5d6b-9q8w'',
             res_serviceName = Some ''stg-cart'', res_environment = ''stg''\<rparr>
   \<and> resolveService exampleMap ''cart'' (Some ''elsewhere'') (Some ''dev'')
     = Some \<lparr>res_namespace = Some ''shared'', res_podName = ''dev-cart-7f9c-2x4k'',
             res_serviceName = Some ''dev-cart'', res_environment = ''dev''\<rparr>
   \<and> resolveService exampleMap ''cart'' (Some ''elsewhere'') None
     = Some \<lparr>res_namespace = Some ''shop-prod'', res_podName = ''prod-cart-1a2b-3c4d'',
             res_serviceName = Some ''prod-cart'', res_environment = ''prod''\<rparr>"
proof -
  let ?prod = "\<lparr>id' = ''1a2b-3c4d'', namespace = Some ''shop-prod'', serviceName = ''prod-cart''\<rparr>"
  let ?stg = "\<lparr>id' = ''5d6b-9q8w'', namespace = Some ''shared'', serviceName = ''stg-cart''\<rparr>"
  let ?dev = "\<lparr>id' = ''7f9c-2x4k'', namespace = Some ''shared'', serviceName = ''dev-cart''\<rparr>"
  let ?envMap = "[(''prod'', ?prod), (''stg'', ?stg), (''dev'', ?dev)]"
  have m: "map_of exampleMap ''cart'' = Some ?envMap" by (simp add: exampleMap_def)
  have split: "?envMap = [(''prod'', ?prod)] @ (''stg'', ?stg) # [(''dev'', ?dev)]
      \<and> namespace ?stg = Some ''shared''
      \<and> (\<forall>(env', d') \<in> set [(''prod'', ?prod)]. namespace d' \<noteq> Some ''shared'')"
    by simp
  have none: "\<forall>(env, d) \<in> set ?envMap. namespace d \<noteq> Some ''elsewhere''" by simp
  have dev: "Some ''dev'' = Some ''dev'' \<and> ''dev'' \<noteq> [] \<and> map_of ?envMap ''dev'' = Some ?dev"
    by simp
  have first: "(None = None \<or> None = Some []) \<and> ?envMap = (''prod'', ?prod) # [(''stg'', ?stg), (''dev'', ?dev)]"
    by simp
  have ne: "''shared'' \<noteq> []" "''elsewhere'' \<noteq> []" by simp_all
  note shared = namespace_match_wins [of exampleMap "''cart''" ?envMap "''shared''"
      "Some ''prod''", THEN mp, OF m, THEN mp, OF ne(1)]
  note byEnv = namespace_match_wins [of exampleMap "''cart''" ?envMap "''elsewhere''"
      "Some ''dev''", THEN mp, OF m, THEN mp, OF ne(2), THEN conjunct2, THEN mp, OF none]
  note byFirst = namespace_match_wins [of exampleMap "''cart''" ?envMap "''elsewhere''"
      None, THEN mp, OF m, THEN mp, OF ne(2), THEN conjunct2, THEN mp, OF none]
  have a: "resolveService exampleMap ''cart'' (Some ''shared'') (Some ''prod'')
     = Some \<lparr>res_namespace = Some ''shared'', res_podName = serviceName ?stg @ ''-'' @ id' ?stg,
             res_serviceName = Some (serviceName ?stg), res_environment = ''stg''\<rparr>"
    by (rule shared [THEN conjunct1, rule_format, OF split])
  have b: "resolveService exampleMap ''cart'' (Some ''elsewhere'') (Some ''dev'')
     = Some \<lparr>res_namespace = namespace ?dev, res_podName = serviceName ?dev @ ''-'' @ id' ?dev,
             res_serviceName = Some (serviceName ?dev), res_environment = ''dev''\<rparr>"
    by (rule byEnv [THEN conjunct2, THEN conjunct1, rule_format, OF dev])
  have c: "resolveService exampleMap ''cart'' (Some ''elsewhere'') None
     = Some \<lparr>res_namespace = namespace ?prod, res_podName = serviceName ?prod @ ''-'' @ id' ?prod,
             res_serviceName = Some (serviceName ?prod), res_environment = ''prod''\<rparr>"
    by (rule byFirst [THEN conjunct2, THEN conjunct2, rule_format, OF first])
  from a b c show ?thesis by simp
qed


section \<open>Stopping\<close>

lemma stop_trace:
  "snd (snd (stop_k8s_port_forward registry afterWait)) =
     map (\<lambda>p. Kill p SIGINT) registry
     @ SetTimeout 500 # map (\<lambda>p. Kill p SIGKILL) afterWait
     @ [StderrWrite (stopMessage (length registry) @ [NL])]"
  by (simp add: stop_k8s_port_forward_def Let_def)

text \<open>
  C8. The effects of the stop handler begin with a SIGINT to each registered process, in
  order; the 500 ms wait follows; each SIGKILL comes after the wait. So every SIGINT
  is issued before the wait and every SIGKILL after it, and each process registered
  when the handler is called has been sent SIGINT before any process is sent SIGKILL.
\<close>

theorem sigint_before_sigkill:
  "(\<forall>k < length registry.
      snd (snd (stop_k8s_port_forward registry afterWait)) ! k = Kill (registry ! k) SIGINT)
   \<and> snd (snd (stop_k8s_port_forward registry afterWait)) ! length registry = SetTimeout 500
   \<and> (\<forall>k < length afterWait.
        snd (snd (stop_k8s_port_forward registry afterWait)) ! (length registry + 1 + k)
          = Kill (afterWait ! k) SIGKILL)
   \<and> (\<forall>i p. i < length (snd (snd (stop_k8s_port_forward registry afterWait)))
          \<and> snd (snd (stop_k8s_port_forward registry afterWait)) ! i = Kill p SIGINT
        \<longrightarrow> i < length registry)
   \<and> (\<forall>j q. j < length (snd (snd (stop_k8s_port_forward registry afterWait)))
          \<and> snd (snd (stop_k8s_port_forward registry afterWait)) ! j = Kill q SIGKILL
        \<longrightarrow> length registry < j)"
proof -
  let ?tr = "snd (snd (stop_k8s_port_forward registry afterWait))"
  let ?rest = "SetTimeout 500 # map (\<lambda>p. Kill p SIGKILL) afterWait
     @ [StderrWrite (stopMessage (length registry) @ [NL])]"
  have tr: "?tr = map (\<lambda>p. Kill p SIGINT) registry @ ?rest" by (rule stop_trace)
  have first: "\<forall>k < length registry. ?tr ! k = Kill (registry ! k) SIGINT"
    by (simp add: tr nth_append)
  have wait: "?tr ! length registry = SetTimeout 500"
    by (simp add: tr nth_append)
  have second: "\<forall>k < length afterWait. ?tr ! (length registry + 1 + k) = Kill (afterWait ! k) SIGKILL"
    by (simp add: tr nth_append)
  have ints: "i < length registry" if "i < length ?tr" and "?tr ! i = Kill p SIGINT" for i p
  proof (rule ccontr)
    assume late: "\<not> i < length registry"
    with that(1) have "i - length registry < length ?rest" by (simp add: tr)
    then have "?rest ! (i - length registry) \<in> set ?rest" by (rule nth_mem)
    moreover have "?tr ! i = ?rest ! (i - length registry)"
      using late by (simp add: tr nth_append)
    ultimately have "Kill p SIGINT \<in> set ?rest" using that(2) by simp
    then show False by auto
  qed
  have kills: "length registry < j" if "?tr ! j = Kill q SIGKILL" for j q
  proof (rule ccontr)
    assume "\<not> length registry < j"
    then consider "j < length registry" | "j = length registry" by linarith
    then show False
    proof cases
      case 1
      with first that show False by simp
    next
      case 2
      with wait that show False by simp
    qed
  qed
  from first wait second ints kills show ?thesis by blast
qed

theorem sigint_before_sigkill_witness:
  "snd (snd (stop_k8s_port_forward [Proc ''kubectl'' [''a''], Proc ''kubectl'' [''b'']]
                [Proc ''kubectl'' [''a''], Proc ''kubectl'' [''b'']])) ! 1
     = Kill (Proc ''kubectl'' [''b'']) SIGINT
   \<and> snd (snd (stop_k8s_port_forward [Proc ''kubectl'' [''a''], Proc ''kubectl'' [''b'']]
                [Proc ''kubectl'' [''a''], Proc ''kubectl'' [''b'']])) ! 3
     = Kill (Proc ''kubectl'' [''a'']) SIGKILL
   \<and> (1::nat) < 2 \<and> (2::nat) < 3"
proof -
  let ?reg = "[Proc ''kubectl'' [''a''], Proc ''kubectl'' [''b'']]"
  let ?tr = "snd (snd (stop_k8s_port_forward ?reg ?reg))"
  note r = sigint_before_sigkill [of ?reg ?reg]
  have len: "3 < length ?tr" by (simp add: stop_k8s_port_forward_def Let_def)
  have a: "?tr ! 1 = Kill (?reg ! 1) SIGINT" using r by simp
  have b: "?tr ! (length ?reg + 1 + 0) = Kill (?reg ! 0) SIGKILL" using r by (simp del: nth_Cons_0)
  have c: "length ?reg < 3" using r len b by simp
  show ?thesis using a b c by (simp add: numeral_3_eq_3)
qed


section \<open>Starting\<close>

lemma entriesLoop_results:
  "entriesLoop rt exec m i ss (R, E) =
     (R @ map projr (filter (\<lambda>r. \<not> isl r) (entryResults rt exec m i ss)),
      E @ map projl (filter isl (entryResults rt exec m i ss)))"
proof (induction ss arbitrary: i R E)
  case Nil
  then show ?case by (simp add: entryResults_def)
next
  case (Cons s ss)
  show ?case
  proof (cases "processEntry rt exec m i s")
    case (Inl e)
    with Cons.IH [of "Suc i" R "E @ [e]"] show ?thesis by (simp add: entryResults_def)
  next
    case (Inr r)
    with Cons.IH [of "Suc i" "R @ [r]" E] show ?thesis by (simp add: entryResults_def)
  qed
qed

lemma enumerate_nth: "enumerate 0 xs = map (\<lambda>j. (j, xs ! j)) [0..<length xs]"
  by (rule nth_equalityI) (simp_all add: nth_enumerate_eq)

lemma entryResults_nth:
  "entryResults rt exec m 0 ss = map (\<lambda>j. processEntry rt exec m j (ss ! j)) [0..<length ss]"
  by (simp add: entryResults_def enumerate_nth)

lemma errors_entryErrors:
  "map projl (filter isl (entryResults rt exec m 0 ss)) = entryErrors rt exec m ss"
  by (simp add: entryResults_nth entryErrors_def filter_map comp_def)

lemma entryErrors_empty_iff:
  "entryErrors rt exec m ss = [] \<longleftrightarrow> (\<forall>i < length ss. \<not> isl (processEntry rt exec m i (ss ! i)))"
  by (auto simp: entryErrors_def filter_empty_conv)

lemma resolved_all:
  assumes "\<forall>i < length ss. \<not> isl (processEntry rt exec m i (ss ! i))"
  shows "length (map projr (filter (\<lambda>r. \<not> isl r) (entryResults rt exec m 0 ss))) = length ss"
proof -
  have "filter (\<lambda>r. \<not> isl r) (entryResults rt exec m 0 ss) = entryResults rt exec m 0 ss"
    using assms by (auto simp: entryResults_nth filter_id_conv)
  then show ?thesis by (simp add: entryResults_nth)
qed

lemma example_pods: "getPods exampleCluster None = Inr (exampleListing @ [NL])"
  by (simp add: getPods_def truthy_def execPromise_def exampleCluster_def)

lemma example_parse: "parseServicesMap exampleRuntime (exampleListing @ [NL]) None = Inr exampleMapParsed"
  by (simp add: exampleListing_def exampleMapParsed_def parse_eval)

lemmas entry_eval =
  processEntry_def getProp_def isValidPort_def resolveService_def truthy_def trim_def
  isSpace_def render_def getServicePort_def servicePortCommand_def execPromise_def
  parseInt10_def orElse_def isDigit_def digitsValue_def exampleRuntime_def Let_def

lemmas entry_notions =
  isObject_def entryServiceName_def entryLocalPort_def entryRemotePort_def
  entryNamespace_def entryEnvironment_def










section \<open>Counting the stopped processes\<close>

lemma digit_inj:
  "a < 10 \<Longrightarrow> b < 10 \<Longrightarrow> ''0123456789'' ! a = ''0123456789'' ! b \<Longrightarrow> a = b"
  using nth_eq_iff_index_eq [of "''0123456789''" a b] by simp

lemma showNat_nonempty: "showNat n \<noteq> []"
  by (subst showNat.simps) simp

lemma showNat_small: "n < 10 \<Longrightarrow> showNat n = [''0123456789'' ! n]"
  by (subst showNat.simps) simp

lemma showNat_large:
  "\<not> n < 10 \<Longrightarrow> showNat n = showNat (n div 10) @ [''0123456789'' ! (n mod 10)]"
  by (subst showNat.simps) simp

lemma showNat_inj: "showNat n = showNat k \<Longrightarrow> n = k"
proof (induction n arbitrary: k rule: showNat.induct)
  case (1 n)
  show ?case
  proof (cases "n < 10")
    case small: True
    show ?thesis
    proof (cases "k < 10")
      case True
      with small "1.prems" show ?thesis by (simp add: showNat_small digit_inj)
    next
      case False
      with small "1.prems" showNat_nonempty [of "k div 10"] show ?thesis
        by (simp add: showNat_small showNat_large)
    qed
  next
    case large: False
    show ?thesis
    proof (cases "k < 10")
      case True
      with large "1.prems" showNat_nonempty [of "n div 10"] show ?thesis
        by (simp add: showNat_small showNat_large)
    next
      case False
      with large "1.prems" have eq: "showNat (n div 10) = showNat (k div 10)"
        and dig: "''0123456789'' ! (n mod 10) = ''0123456789'' ! (k mod 10)"
        by (simp_all add: showNat_large)
      from "1.IH" [OF large eq] have "n div 10 = k div 10" .
      moreover from dig have "n mod 10 = k mod 10" by (intro digit_inj) simp_all
      ultimately show ?thesis by (metis div_mult_mod_eq)
    qed
  qed
qed

lemma stopMessage_inj: "stopMessage n = stopMessage k \<Longrightarrow> n = k"
  by (auto simp: stopMessage_def dest: showNat_inj split: if_splits)

text \<open>
  C7. The stop handler reports the number of processes in the registry when it is
  called (its message determines that number) and leaves the registry empty. A start
  whose entries all succeed adds one process for each entry; so a start with N such
  entries on an empty registry followed by a stop reports N and leaves the registry
  empty.
\<close>

theorem stop_reports_registered_count:
  "fst (stop_k8s_port_forward registry afterWait) = stopMessage (length registry)
   \<and> fst (snd (stop_k8s_port_forward registry afterWait)) = []
   \<and> (stopMessage n = stopMessage k \<longrightarrow> n = k)
   \<and> (getProp args ''services'' = Arr services
        \<longrightarrow> services \<noteq> []
        \<longrightarrow> getPods exec None = Inr podsData
        \<longrightarrow> parseServicesMap rt podsData None = Inr m
        \<longrightarrow> (\<forall>i < length services. \<not> isl (processEntry rt exec m i (services ! i)))
        \<longrightarrow> length (fst (snd (start_k8s_port_forward rt exec args registry)))
              = length registry + length services
            \<and> fst (stop_k8s_port_forward
                     (fst (snd (start_k8s_port_forward rt exec args []))) afterWait')
              = stopMessage (length services)
            \<and> fst (snd (stop_k8s_port_forward
                     (fst (snd (start_k8s_port_forward rt exec args []))) afterWait')) = [])"
proof (intro conjI impI)
  show "fst (stop_k8s_port_forward registry afterWait) = stopMessage (length registry)"
    by (simp add: stop_k8s_port_forward_def Let_def)
  show "fst (snd (stop_k8s_port_forward registry afterWait)) = []"
    by (simp add: stop_k8s_port_forward_def Let_def)
  show "n = k" if "stopMessage n = stopMessage k"
    using that by (rule stopMessage_inj)
next
  assume args: "getProp args ''services'' = Arr services"
    and ne: "services \<noteq> []"
    and pods: "getPods exec None = Inr podsData"
    and parse: "parseServicesMap rt podsData None = Inr m"
    and ok: "\<forall>i < length services. \<not> isl (processEntry rt exec m i (services ! i))"
  let ?resolved = "map projr (filter (\<lambda>r. \<not> isl r) (entryResults rt exec m 0 services))"
  have loop: "entriesLoop rt exec m 0 services ([], []) = (?resolved, [])"
    using ok entryErrors_empty_iff [of rt exec m services]
    by (simp add: entriesLoop_results errors_entryErrors)
  have len: "length ?resolved = length services" using ok by (rule resolved_all)
  have reg: "fst (snd (start_k8s_port_forward rt exec args r)) =
      r @ map (\<lambda>x. Proc ''kubectl'' (spawnArgs rt x)) ?resolved" for r
    using args ne pods parse loop by (simp add: start_k8s_port_forward_def Let_def)
  show "length (fst (snd (start_k8s_port_forward rt exec args registry)))
              = length registry + length services"
    using len by (simp add: reg)
  show "fst (stop_k8s_port_forward
                     (fst (snd (start_k8s_port_forward rt exec args []))) afterWait')
              = stopMessage (length services)"
    using len by (simp add: reg stop_k8s_port_forward_def Let_def)
  show "fst (snd (stop_k8s_port_forward
                     (fst (snd (start_k8s_port_forward rt exec args []))) afterWait')) = []"
    by (simp add: stop_k8s_port_forward_def Let_def)
qed

theorem stop_reports_registered_count_witness:
  "fst (stop_k8s_port_forward
         (fst (snd (start_k8s_port_forward exampleRuntime exampleCluster
                      (Obj [(''services'', Arr goodBatch)]) []))) [])
     = ''Stopped 2 port-forward process(es).''
   \<and> fst (snd (stop_k8s_port_forward
         (fst (snd (start_k8s_port_forward exampleRuntime exampleCluster
                      (Obj [(''services'', Arr goodBatch)]) []))) [])) = []"
proof -
  let ?args = "Obj [(''services'', Arr goodBatch)]"
  have args: "getProp ?args ''services'' = Arr goodBatch"
    by (simp add: getProp_def)
  have ne: "goodBatch \<noteq> []" by (simp add: goodBatch_def)
  have e0: "\<not> isl (processEntry exampleRuntime exampleCluster exampleMapParsed 0 (goodBatch ! 0))"
    by (simp add: goodBatch_def exampleMapParsed_def exampleCluster_def entry_eval showNat.simps)
  have e1: "\<not> isl (processEntry exampleRuntime exampleCluster exampleMapParsed 1 (goodBatch ! 1))"
    by (simp add: goodBatch_def exampleMapParsed_def exampleCluster_def entry_eval showNat.simps)
  have len: "length goodBatch = 2" by (simp add: goodBatch_def)
  have ok: "\<forall>i < length goodBatch.
      \<not> isl (processEntry exampleRuntime exampleCluster exampleMapParsed i (goodBatch ! i))"
    using e0 e1 by (auto simp: len less_Suc_eq numeral_2_eq_2)
  from stop_reports_registered_count [of "[]" "[]" 0 0 ?args goodBatch exampleCluster
      "exampleListing @ [NL]" exampleRuntime exampleMapParsed "[]"]
    args ne example_pods example_parse ok
  have "fst (stop_k8s_port_forward
              (fst (snd (start_k8s_port_forward exampleRuntime exampleCluster ?args []))) [])
          = stopMessage (length goodBatch)
        \<and> fst (snd (stop_k8s_port_forward
              (fst (snd (start_k8s_port_forward exampleRuntime exampleCluster ?args []))) [])) = []"
    by blast
  moreover have "stopMessage 2 = ''Stopped 2 port-forward process(es).''"
    by (simp add: stopMessage_def showNat_small)
  ultimately show ?thesis by (simp add: len)
qed


section \<open>The remote port\<close>

lemma dropWhile_rev_hd:
  "xs \<noteq> [] \<Longrightarrow> \<not> P (hd xs) \<Longrightarrow> rev (dropWhile P (rev xs)) \<noteq> [] \<and> hd (rev (dropWhile P (rev xs))) = hd xs"
proof (induction xs rule: rev_induct)
  case Nil
  then show ?case by simp
next
  case (snoc x xs)
  show ?case
  proof (cases xs)
    case Nil
    with snoc.prems show ?thesis by simp
  next
    case (Cons y ys)
    with snoc show ?thesis by (cases "P x") auto
  qed
qed

lemma trim_no_leading_space: "trim s \<noteq> [] \<Longrightarrow> \<not> isSpace (hd (trim s))"
proof -
  assume ne: "trim s \<noteq> []"
  let ?t = "dropWhile isSpace s"
  have t: "?t \<noteq> []"
  proof
    assume e: "?t = []"
    have "trim s = rev (dropWhile isSpace (rev ?t))" by (simp only: trim_def)
    also have "\<dots> = []" unfolding e by simp
    finally show False using ne by simp
  qed
  then have "\<not> isSpace (hd ?t)" by (simp add: hd_dropWhile)
  with t show ?thesis using dropWhile_rev_hd [of ?t isSpace] by (simp add: trim_def)
qed

lemma parseInt10_not_numeric:
  assumes "\<not> numericPrefix t" and "t = [] \<or> \<not> isSpace (hd t)"
  shows "parseInt10 rt t = NaN"
proof (cases t)
  case Nil
  then show ?thesis by (simp add: parseInt10_def)
next
  case (Cons c r)
  with assms(2) have drop: "dropWhile isSpace t = t" by simp
  show ?thesis
  proof (cases "c = CHR ''-'' \<or> c = CHR ''+''")
    case True
    with assms(1) Cons have "takeWhile isDigit r = []"
      by (cases r) (auto simp: numericPrefix_def)
    with True Cons drop show ?thesis by (auto simp: parseInt10_def Let_def)
  next
    case False
    with assms(1) Cons have "takeWhile isDigit t = []" by (simp add: numericPrefix_def)
    with False Cons drop show ?thesis by (simp add: parseInt10_def Let_def)
  qed
qed

lemma parseInt10_3000: "parseInt10 rt ''3000'' = Fin 3000"
  by (simp add: parseInt10_def isSpace_def isDigit_def digitsValue_def Let_def)

lemma detect_fallback:
  assumes "givesNoNumber (exec (servicePortCommand ns svc))"
  shows "orElse (parseInt10 rt (getServicePort exec ns svc)) (Fin 3000) = Fin 3000"
proof (cases "execPromise (exec (servicePortCommand ns svc))")
  case (Inl e)
  then show ?thesis by (simp add: getServicePort_def parseInt10_3000 orElse_def)
next
  case (Inr port)
  show ?thesis
  proof (cases "trim port = []")
    case True
    with Inr show ?thesis by (simp add: getServicePort_def parseInt10_3000 orElse_def)
  next
    case False
    with assms Inr have "\<not> numericPrefix (trim port)" by (simp add: givesNoNumber_def)
    with False have "parseInt10 rt (trim port) = NaN"
      by (intro parseInt10_not_numeric) (simp_all add: trim_no_leading_space)
    with False Inr show ?thesis by (simp add: getServicePort_def orElse_def)
  qed
qed

text \<open>
  C6 (as amended). When the port query gives no number (the tool fails, or prints
  nothing but white space, or prints something that does not begin with a decimal
  digit after an optional sign), the port computed from it is 3000. In the loop body, an
  entry that is valid and resolves, has no remote port of its own, and whose own port
  query gives no number, is resolved with the remote port 3000: the failure of the
  query gives no error line.
\<close>

theorem port_fallback:
  "(givesNoNumber (exec (servicePortCommand ns svc))
      \<longrightarrow> orElse (parseInt10 rt (getServicePort exec ns svc)) (Fin 3000) = Fin 3000)
   \<and> (entryFailure rt m s = None
      \<longrightarrow> entryRemotePort rt s = None
      \<longrightarrow> resolveService m (entryServiceName s) (entryNamespace s) (entryEnvironment s) = Some ro
      \<longrightarrow> givesNoNumber (exec (servicePortCommand (res_namespace ro) (res_serviceName ro)))
      \<longrightarrow> (\<exists>r. processEntry rt exec m i s = Inr r \<and> remotePort r = Fin 3000))"
proof (intro conjI impI)
  assume "givesNoNumber (exec (servicePortCommand ns svc))"
  then show "orElse (parseInt10 rt (getServicePort exec ns svc)) (Fin 3000) = Fin 3000"
    by (rule detect_fallback)
next
  assume ok: "entryFailure rt m s = None"
    and absent: "entryRemotePort rt s = None"
    and res: "resolveService m (entryServiceName s) (entryNamespace s) (entryEnvironment s) = Some ro"
    and fails: "givesNoNumber (exec (servicePortCommand (res_namespace ro) (res_serviceName ro)))"
  have det: "orElse (parseInt10 rt (getServicePort exec (res_namespace ro) (res_serviceName ro)))
               (Fin 3000) = Fin 3000"
    using fails by (rule detect_fallback)
  from ok have valid: "isObject s" "entryServiceName s \<noteq> []" "isValidPort (entryLocalPort rt s)"
    by (auto simp: entryFailure_def split: if_splits)
  from valid absent res det show "\<exists>r. processEntry rt exec m i s = Inr r \<and> remotePort r = Fin 3000"
    unfolding processEntry_def entry_notions Let_def by simp
qed

theorem port_fallback_witness:
  "orElse (parseInt10 exampleRuntime
       (getServicePort oddCluster (Some ''shop'') (Some ''dev-shop-cart''))) (Fin 3000) = Fin 3000
   \<and> \<not> isl (processEntry exampleRuntime failingCluster exampleMapParsed 0 numberPortEntry)
   \<and> remotePort (projr (processEntry exampleRuntime failingCluster exampleMapParsed 0
        numberPortEntry)) = Fin 3000"
proof -
  let ?ro = "\<lparr>res_namespace = Some ''shop'', res_podName = ''dev-shop-cart-7f9c-2x4k'',
              res_serviceName = Some ''dev-shop-cart'', res_environment = ''dev''\<rparr>"
  have odd: "givesNoNumber (oddCluster (servicePortCommand (Some ''shop'') (Some ''dev-shop-cart'')))"
    by (simp add: givesNoNumber_def oddCluster_def execPromise_def trim_def isSpace_def
          numericPrefix_def isDigit_def)
  have res: "resolveService exampleMapParsed (entryServiceName numberPortEntry)
               (entryNamespace numberPortEntry) (entryEnvironment numberPortEntry) = Some ?ro"
    by (simp add: numberPortEntry_def exampleMapParsed_def entry_notions getProp_def
          resolveService_def truthy_def trim_def isSpace_def)
  have ok: "entryFailure exampleRuntime exampleMapParsed numberPortEntry = None"
    using res
    by (simp add: entryFailure_def)
       (simp add: numberPortEntry_def entry_notions getProp_def isValidPort_def trim_def
          isSpace_def)
  have absent: "entryRemotePort exampleRuntime numberPortEntry = None"
    by (simp add: numberPortEntry_def entryRemotePort_def getProp_def)
  have fails: "givesNoNumber (failingCluster (servicePortCommand (res_namespace ?ro)
                 (res_serviceName ?ro)))"
    by (simp add: givesNoNumber_def failingCluster_def execPromise_def)
  have a: "orElse (parseInt10 exampleRuntime
       (getServicePort oddCluster (Some ''shop'') (Some ''dev-shop-cart''))) (Fin 3000) = Fin 3000"
    by (rule port_fallback [where exec = oddCluster and ns = "Some ''shop''"
          and svc = "Some ''dev-shop-cart''" and rt = exampleRuntime and m = exampleMapParsed
          and s = numberPortEntry and ro = ?ro and i = 0, THEN conjunct1, THEN mp, OF odd])
  have "\<exists>x. processEntry exampleRuntime failingCluster exampleMapParsed 0 numberPortEntry = Inr x
          \<and> remotePort x = Fin 3000"
    by (rule port_fallback [where exec = failingCluster and ns = None and svc = None
          and rt = exampleRuntime and m = exampleMapParsed and s = numberPortEntry
          and ro = ?ro and i = 0, THEN conjunct2, THEN mp, OF ok,
          THEN mp, OF absent, THEN mp, OF res, THEN mp, OF fails])
  then obtain x where "processEntry exampleRuntime failingCluster exampleMapParsed 0 numberPortEntry = Inr x"
    and "remotePort x = Fin 3000" by blast
  then have b: "\<not> isl (processEntry exampleRuntime failingCluster exampleMapParsed 0 numberPortEntry)
   \<and> remotePort (projr (processEntry exampleRuntime failingCluster exampleMapParsed 0
        numberPortEntry)) = Fin 3000" by simp
  from a b show ?thesis by blast
qed

text \<open>
  A port query that prints \<open>80/TCP\<close>: the result is not a numeral, and the remote port
  is 80.
\<close>

theorem port_prefix_counterexample:
  "\<not> isNumeral ''80/TCP''
   \<and> processEntry exampleRuntime tcpCluster exampleMapParsed 0 numberPortEntry
     = Inr \<lparr>rs_namespace = Some ''shop'', rs_podName = ''dev-shop-cart-7f9c-2x4k'',
            localPort = Fin 3000, remotePort = Fin 80, label = ''dev~cart:3000'',
            includeLogs = True, rs_environment = ''dev''\<rparr>"
  by (simp add: isNumeral_def numberPortEntry_def exampleMapParsed_def tcpCluster_def
        entry_eval showNat.simps)

section \<open>Ports given as strings\<close>










end
